theory Spec2Isabelle
  imports Complex_Main "HOL-Library.Multiset"
begin

section \<open>Single-precision arithmetic\<close>

text \<open>
  The acceptance ratio is a C++ \<open>float\<close> (IEEE-754 binary32, operations evaluated in
  single precision). A value is NaN, one of the two infinities or a finite number, and a
  finite binary32 value is a rational number. The two zeros are one value here: they
  compare equal, and no operation below depends on the sign of a zero.
\<close>

datatype float = NaN | PInf | NInf | Fin rat

text \<open>Integer base-2 logarithm of a positive natural number, rounded down.\<close>

fun ilog2 :: "nat \<Rightarrow> nat" where
  "ilog2 n = (if n < 2 then 0 else Suc (ilog2 (n div 2)))"

text \<open>The binary exponent \<open>e\<close> of a non-zero \<open>x\<close>: \<open>2 powi e \<le> \<bar>x\<bar> < 2 powi (e + 1)\<close>.\<close>

definition expo :: "rat \<Rightarrow> int" where
  "expo x = (let (a, b) = quotient_of \<bar>x\<bar>;
                 k = int (ilog2 (nat a)) - int (ilog2 (nat b))
             in if 2 powi k \<le> \<bar>x\<bar> then k else k - 1)"

text \<open>Nearest integer, ties to the even neighbour.\<close>

definition round_even :: "rat \<Rightarrow> int" where
  "round_even q = (let m = \<lfloor>q\<rfloor>; r = q - of_int m
                   in if r < 1 / 2 then m
                      else if 1 / 2 < r then m + 1
                      else if even m then m else m + 1)"

text \<open>The spacing of binary32 values around \<open>x\<close>.\<close>

definition ulp :: "rat \<Rightarrow> rat" where
  "ulp x = 2 powi (max (expo x) (- 126) - 23)"

text \<open>
  Rounding of an exact result to the nearest value with 24 significant bits and an
  exponent of at least \<open>-126\<close>, ties to even; the exponent is not bounded above here.
\<close>

definition f32_round :: "rat \<Rightarrow> rat" where
  "f32_round x = (if x = 0 then 0 else of_int (round_even (x / ulp x)) * ulp x)"

text \<open>
  The result of an operation whose exact value is \<open>x\<close>: a rounded value of magnitude
  \<open>2 ^ 128\<close> or more is an infinity.
\<close>

definition float_of_rat :: "rat \<Rightarrow> float" where
  "float_of_rat x =
     (let r = f32_round x
      in if 2 ^ 128 \<le> r then PInf else if r \<le> - (2 ^ 128) then NInf else Fin r)"

fun negative :: "float \<Rightarrow> bool" where
  "negative NInf = True"
| "negative (Fin a) = (a < 0)"
| "negative x = False"

text \<open>\<open>a + b\<close> on \<open>float\<close>.\<close>

fun float_add :: "float \<Rightarrow> float \<Rightarrow> float" where
  "float_add (Fin a) (Fin b) = float_of_rat (a + b)"
| "float_add NaN b = NaN"
| "float_add a NaN = NaN"
| "float_add PInf NInf = NaN"
| "float_add NInf PInf = NaN"
| "float_add PInf b = PInf"
| "float_add a PInf = PInf"
| "float_add NInf b = NInf"
| "float_add a NInf = NInf"

text \<open>\<open>a * b\<close> on \<open>float\<close>; in the last equation one factor is an infinity.\<close>

fun float_mul :: "float \<Rightarrow> float \<Rightarrow> float" where
  "float_mul (Fin a) (Fin b) = float_of_rat (a * b)"
| "float_mul NaN b = NaN"
| "float_mul a NaN = NaN"
| "float_mul a b =
     (if a = Fin 0 \<or> b = Fin 0 then NaN
      else if negative a = negative b then PInf else NInf)"

text \<open>\<open>a < b\<close> on \<open>float\<close>: false whenever an operand is NaN.\<close>

fun float_less :: "float \<Rightarrow> float \<Rightarrow> bool" where
  "float_less (Fin a) (Fin b) = (a < b)"
| "float_less NaN b = False"
| "float_less a NaN = False"
| "float_less NInf b = (b \<noteq> NInf)"
| "float_less a PInf = (a \<noteq> PInf)"
| "float_less a b = False"

text \<open>
  \<open>std::min(a, b)\<close> is \<open>(b < a) ? b : a\<close> and \<open>std::max(a, b)\<close> is
  \<open>(a < b) ? b : a\<close>.
\<close>

definition std_min :: "float \<Rightarrow> float \<Rightarrow> float" where
  "std_min a b = (if float_less b a then b else a)"

definition std_max :: "float \<Rightarrow> float \<Rightarrow> float" where
  "std_max a b = (if float_less a b then b else a)"

text \<open>Conversion \<open>size_t \<rightarrow> float\<close> (usual arithmetic conversions of \<open>size_t * float\<close>).\<close>

definition float_of_size :: "nat \<Rightarrow> float" where
  "float_of_size n = float_of_rat (of_nat n)"

text \<open>
  Conversion \<open>float \<rightarrow> int\<close>: the fractional part is discarded (truncation towards
  zero). The conversion is undefined (\<open>None\<close>) for NaN, for the infinities and when the
  truncated value is no 32-bit \<open>int\<close>.
\<close>

fun float_to_int :: "float \<Rightarrow> int option" where
  "float_to_int (Fin x) =
     (let t = (if 0 \<le> x then \<lfloor>x\<rfloor> else \<lceil>x\<rceil>)
      in if - (2 ^ 31) \<le> t \<and> t < 2 ^ 31 then Some t else None)"
| "float_to_int x = None"

text \<open>
  The scaling branch of \<open>DrawSingleResult\<close> computes with image dimensions, which are
  finite and, for the divisor, above \<open>100\<close> there. Its operations are given on the
  finite values alone: division, multiplication, \<open>int \<rightarrow> float\<close> and
  \<open>float \<rightarrow> int\<close>.
\<close>

definition f32_mul :: "rat \<Rightarrow> rat \<Rightarrow> rat" where
  "f32_mul a b = f32_round (a * b)"

definition f32_div :: "rat \<Rightarrow> rat \<Rightarrow> rat" where
  "f32_div a b = f32_round (a / b)"

definition f32_of_int :: "int \<Rightarrow> rat" where
  "f32_of_int i = f32_round (of_int i)"

definition f32_to_int :: "rat \<Rightarrow> int" where
  "f32_to_int x = (if 0 \<le> x then \<lfloor>x\<rfloor> else \<lceil>x\<rceil>)"


section \<open>Data of the vision library\<close>

text \<open>
  \<open>cv::Mat\<close>: a raster with its dimensions. A default-constructed \<open>cv::Mat()\<close> has no rows,
  no columns and no data.
\<close>

record Mat =
  rows :: int
  cols :: int
  data :: "nat list"

definition Mat_default :: Mat where
  "Mat_default = \<lparr>rows = 0, cols = 0, data = []\<rparr>"

definition Mat_empty :: "Mat \<Rightarrow> bool" where
  "Mat_empty m = (rows m = 0 \<or> cols m = 0 \<or> data m = [])"

datatype KeyPoint = KeyPoint (pt_x: rat) (pt_y: rat)

text \<open>
  \<open>cv::DMatch\<close>; its \<open>operator<\<close> compares \<open>distance\<close> only. The distances that
  a matcher reports are finite numbers.
\<close>

record DMatch =
  queryIdx :: int
  trainIdx :: int
  imgIdx :: int
  distance :: rat

text \<open>The algorithm objects the factories ask the library for, as the source writes them.\<close>

datatype Feature2D = SIFT_create | SURF_create | ORB_create | KAZE_create | BRISK_create

datatype IndexParams = LshIndexParams int int int

datatype NormType = NORM_L1 | NORM_HAMMING

datatype DescriptorMatcher =
    FlannBasedMatcher_create
  | FlannBasedMatcher_new IndexParams
  | BFMatcher_create NormType

text \<open>
  The library, \<open>std::sort\<close> and the compiler are not part of the repository: what they
  do is a parameter of the model. All library calls are taken to return normally except
  \<open>cv::drawMatches\<close>, the one call the source guards: it yields the final state of its
  output image together with the message of the \<open>std::exception\<close> it raised, if any.
  What the source prints to \<open>std::cout\<close> is left out; what it writes to \<open>std::cerr\<close>
  is part of the result of the drawing functions.

  \<open>off_end_returns\<close> is the build's treatment of a value-returning function that reaches
  its closing brace without a \<open>return\<close> statement, called by a caller that ignores the
  value. The C++ standard leaves that undefined. A build either lets such a call come back
  to its caller (\<open>True\<close>, the usual outcome of a build without optimisation) or does
  not (\<open>False\<close>: an optimising build may run into a trap or into the code that follows).
\<close>

record Platform =
  detectAndCompute :: "Feature2D \<Rightarrow> Mat \<Rightarrow> KeyPoint list \<times> Mat"
  match :: "DescriptorMatcher \<Rightarrow> Mat \<Rightarrow> Mat \<Rightarrow> DMatch list"
  std_sort :: "DMatch list \<Rightarrow> DMatch list"
  drawMatches :: "Mat \<Rightarrow> KeyPoint list \<Rightarrow> Mat \<Rightarrow> KeyPoint list \<Rightarrow> DMatch list
                   \<Rightarrow> Mat \<times> string option"
  putText :: "Mat \<Rightarrow> string \<Rightarrow> Mat"
  vconcat :: "Mat list \<Rightarrow> Mat"
  resize :: "Mat \<Rightarrow> int \<times> int \<Rightarrow> Mat"
  off_end_returns :: bool

text \<open>
  What \<open>std::sort\<close> guarantees with \<open>DMatch::operator<\<close>: a rearrangement of the
  input in non-decreasing order of distance (the order of ties is unspecified).
\<close>

definition sort_contract :: "(DMatch list \<Rightarrow> DMatch list) \<Rightarrow> DMatch list \<Rightarrow> bool" where
  "sort_contract srt xs = (mset (srt xs) = mset xs \<and> sorted (map distance (srt xs)))"


section \<open>Errors and loops\<close>

text \<open>
  \<open>Thrown s\<close>: \<open>throw std::string(s)\<close>; \<open>AssertionFailed\<close>: a failed \<open>assert\<close>
  (assertions enabled); \<open>StdException w\<close>: an uncaught library exception with message
  \<open>w\<close>; \<open>UndefinedBehaviour\<close>: an out-of-range \<open>operator[]\<close> or iterator, a
  conversion \<open>float \<rightarrow> int\<close> of a value that is no \<open>int\<close>, or the end of a
  value-returning function reached without \<open>return\<close> in a build that does not let the
  call come back.
\<close>

datatype error = Thrown string | AssertionFailed | StdException string | UndefinedBehaviour

definition bind :: "error + 'a \<Rightarrow> ('a \<Rightarrow> error + 'b) \<Rightarrow> error + 'b" where
  "bind r f = (case r of Inl e \<Rightarrow> Inl e | Inr x \<Rightarrow> f x)"

text \<open>\<open>for (x : xs) out.push_back(f(x));\<close> where \<open>f\<close> may throw.\<close>

fun foreach_push :: "('a \<Rightarrow> error + 'b) \<Rightarrow> 'a list \<Rightarrow> 'b list \<Rightarrow> error + 'b list" where
  "foreach_push f [] out = Inr out"
| "foreach_push f (x # xs) out = bind (f x) (\<lambda>y. foreach_push f xs (out @ [y]))"

text \<open>\<open>for (i = i0; i < i0 + n; i++) body(i);\<close> on a state, where the body may fail.\<close>

fun for_loop :: "nat \<Rightarrow> nat \<Rightarrow> (nat \<Rightarrow> 's \<Rightarrow> error + 's) \<Rightarrow> 's \<Rightarrow> error + 's" where
  "for_loop i 0 body s = Inr s"
| "for_loop i (Suc n) body s = bind (body i s) (for_loop (Suc i) n body)"

text \<open>Unchecked \<open>v[i]\<close> of a \<open>std::vector\<close>.\<close>

definition vec_at :: "'a list \<Rightarrow> nat \<Rightarrow> error + 'a" where
  "vec_at v i = (if i < length v then Inr (v ! i) else Inl UndefinedBehaviour)"


section \<open>Detector\<close>

record DetectResult =
  r_name :: string
  r_image :: Mat
  r_keypts :: "KeyPoint list"
  r_descriptors :: Mat

text \<open>Class \<open>Detector\<close>; its member \<open>image\<close> is written \<open>image_d\<close> here.\<close>

record Detector =
  feature :: Feature2D
  name :: string
  image_d :: Mat
  keypts :: "KeyPoint list"
  descriptors :: Mat

text \<open>The constructor \<open>Detector(_name, _feature)\<close>.\<close>

definition Detector_ctor :: "string \<Rightarrow> Feature2D \<Rightarrow> Detector" where
  "Detector_ctor n f =
     \<lparr>feature = f, name = n, image_d = Mat_default, keypts = [], descriptors = Mat_default\<rparr>"

text \<open>\<open>Detector::Factory\<close> of the second source file: each branch returns at once.\<close>

definition Detector_Factory :: "string \<Rightarrow> error + Detector" where
  "Detector_Factory n =
     (if n = ''sift'' then Inr (Detector_ctor n SIFT_create)
      else if n = ''surf'' then Inr (Detector_ctor n SURF_create)
      else if n = ''orb'' then Inr (Detector_ctor n ORB_create)
      else if n = ''kaze'' then Inr (Detector_ctor n KAZE_create)
      else if n = ''brisk'' then Inr (Detector_ctor n BRISK_create)
      else Inl (Thrown ''error''))"

text \<open>
  \<open>Detector::Factory\<close> of \<open>feature.hpp\<close>: the branches assign \<open>desc\<close>, the detector is
  built after the chain.
\<close>

definition Detector_Factory_hpp :: "string \<Rightarrow> error + Detector" where
  "Detector_Factory_hpp n =
     bind (if n = ''sift'' then Inr SIFT_create
           else if n = ''surf'' then Inr SURF_create
           else if n = ''orb'' then Inr ORB_create
           else if n = ''kaze'' then Inr KAZE_create
           else if n = ''brisk'' then Inr BRISK_create
           else Inl (Thrown ''error''))
          (\<lambda>desc. Inr (Detector_ctor n desc))"

definition DetectAndCompute :: "Platform \<Rightarrow> Mat \<Rightarrow> Detector \<Rightarrow> Detector" where
  "DetectAndCompute cv img d =
     (let (k, ds) = detectAndCompute cv (feature d) img
      in d\<lparr>image_d := img, keypts := k, descriptors := ds\<rparr>)"

definition Detector_getResult :: "Detector \<Rightarrow> DetectResult" where
  "Detector_getResult d =
     \<lparr>r_name = name d, r_image = image_d d, r_keypts = keypts d,
      r_descriptors = descriptors d\<rparr>"


section \<open>Matcher\<close>

record MatcherResult =
  mr_name :: string
  mr_matches :: "DMatch list"

text \<open>Class \<open>Matcher\<close>; its member \<open>name\<close> is written \<open>mname\<close> here.\<close>

record Matcher =
  matcher :: DescriptorMatcher
  mname :: string
  matches :: "DMatch list"
  minMathces :: int

definition Matcher_ctor :: "string \<Rightarrow> DescriptorMatcher \<Rightarrow> Matcher" where
  "Matcher_ctor n mt = \<lparr>matcher = mt, mname = n, matches = [], minMathces = 10\<rparr>"

text \<open>\<open>Matcher::Factory(name, descName)\<close> of the second source file.\<close>

definition Matcher_Factory :: "string \<Rightarrow> string \<Rightarrow> error + Matcher" where
  "Matcher_Factory n descName =
     (if n = ''flann'' then
        (if descName = ''orb''
         then Inr (Matcher_ctor n (FlannBasedMatcher_new (LshIndexParams 12 20 2)))
         else Inr (Matcher_ctor n FlannBasedMatcher_create))
      else if n = ''bf'' then
        (if descName = ''orb''
         then Inr (Matcher_ctor n (BFMatcher_create NORM_HAMMING))
         else Inr (Matcher_ctor n (BFMatcher_create NORM_L1)))
      else Inl (Thrown ''error''))"

text \<open>\<open>Matcher::Factory(name)\<close> of \<open>feature.hpp\<close>.\<close>

definition Matcher_Factory_hpp :: "string \<Rightarrow> error + Matcher" where
  "Matcher_Factory_hpp n =
     bind (if n = ''flann'' then Inr FlannBasedMatcher_create
           else if n = ''bf'' then Inr (BFMatcher_create NORM_L1)
           else Inl (Thrown ''error''))
          (\<lambda>mt. Inr (Matcher_ctor n mt))"

text \<open>The function-local static of \<open>Matcher::AcceptRatio\<close> starts at \<open>0.5f\<close>.\<close>

definition AcceptRatio_init :: float where
  "AcceptRatio_init = Fin (1 / 2)"

text \<open>
  \<open>Matcher::MatchDescriptors\<close> of the second source file. \<open>ratio\<close> is the current value
  of the static behind \<open>AcceptRatio()\<close>. The library writes the raw matches into the
  member \<open>matches\<close>, which is then sorted and cut; the product \<open>matches.size() *
  AcceptRatio()\<close> is a \<open>float\<close>, converted to \<open>int\<close>; \<open>erase\<close> from an iterator
  outside the vector is undefined. The function is declared to return
  \<open>std::vector<cv::DMatch>&\<close> and ends without a \<open>return\<close> statement: every call that
  gets as far as the closing brace is undefined there, and comes back to \<open>MatchImage\<close>,
  which ignores the value, only if the build lets it.
\<close>

definition MatchDescriptors :: "Platform \<Rightarrow> float \<Rightarrow> Mat \<Rightarrow> Mat \<Rightarrow> Matcher \<Rightarrow> error + Matcher" where
  "MatchDescriptors cv ratio referDesc inputDesc m =
     (let ms = match cv (matcher m) inputDesc referDesc;
          ms = std_sort cv ms
      in case float_to_int (float_mul (float_of_size (length ms)) ratio) of
           None \<Rightarrow> Inl UndefinedBehaviour
         | Some numGoodMatches \<Rightarrow>
             if 0 \<le> numGoodMatches \<and> numGoodMatches \<le> int (length ms)
             then (if off_end_returns cv
                   then Inr (m\<lparr>matches := take (nat numGoodMatches) ms\<rparr>)
                   else Inl UndefinedBehaviour)
             else Inl UndefinedBehaviour)"

text \<open>
  \<open>Matcher::MatchDescriptors\<close> of \<open>feature.hpp\<close>: the same statements, after the
  declaration of a local vector \<open>matches\<close> that hides the member. The local is lost
  when the function ends. The \<open>return\<close> statement is missing here too.
\<close>

definition MatchDescriptors_hpp :: "Platform \<Rightarrow> float \<Rightarrow> Mat \<Rightarrow> Mat \<Rightarrow> Matcher \<Rightarrow> error + Matcher" where
  "MatchDescriptors_hpp cv ratio referDesc inputDesc m =
     (let local_matches = match cv (matcher m) inputDesc referDesc;
          local_matches = std_sort cv local_matches
      in case float_to_int (float_mul (float_of_size (length local_matches)) ratio) of
           None \<Rightarrow> Inl UndefinedBehaviour
         | Some numGoodMatches \<Rightarrow>
             if 0 \<le> numGoodMatches \<and> numGoodMatches \<le> int (length local_matches)
             then (if off_end_returns cv then Inr m else Inl UndefinedBehaviour)
             else Inl UndefinedBehaviour)"

definition Matcher_getResult :: "Matcher \<Rightarrow> MatcherResult" where
  "Matcher_getResult m = \<lparr>mr_name = mname m, mr_matches = matches m\<rparr>"


section \<open>MatchHandler\<close>

record MatchHandler =
  referDets :: "Detector list"
  inputDets :: "Detector list"
  matchers :: "Matcher list"
  acceptRatio :: float

text \<open>The constructor of the second source file.\<close>

definition MatchHandler_ctor :: "string list \<Rightarrow> string list \<Rightarrow> error + MatchHandler" where
  "MatchHandler_ctor features matcher_names =
     (if length features \<noteq> length matcher_names then Inl AssertionFailed
      else
        bind (foreach_push Detector_Factory features []) (\<lambda>rds.
        bind (foreach_push Detector_Factory features []) (\<lambda>ids.
        bind (for_loop 0 (length matcher_names)
                (\<lambda>i ms. bind (vec_at matcher_names i) (\<lambda>mn.
                         bind (vec_at ids i) (\<lambda>d.
                         bind (Matcher_Factory mn (r_name (Detector_getResult d))) (\<lambda>m.
                         Inr (ms @ [m])))))
                []) (\<lambda>ms.
        Inr \<lparr>referDets = rds, inputDets = ids, matchers = ms, acceptRatio = Fin (1 / 2)\<rparr>))))"

text \<open>The constructor of \<open>feature.hpp\<close>.\<close>

definition MatchHandler_ctor_hpp :: "string list \<Rightarrow> string list \<Rightarrow> error + MatchHandler" where
  "MatchHandler_ctor_hpp features matcher_names =
     (if length features \<noteq> length matcher_names then Inl AssertionFailed
      else
        bind (foreach_push Detector_Factory_hpp features []) (\<lambda>rds.
        bind (foreach_push Detector_Factory_hpp features []) (\<lambda>ids.
        bind (foreach_push Matcher_Factory_hpp matcher_names []) (\<lambda>ms.
        Inr \<lparr>referDets = rds, inputDets = ids, matchers = ms, acceptRatio = Fin (1 / 2)\<rparr>))))"

definition SetRefImage :: "Platform \<Rightarrow> Mat \<Rightarrow> MatchHandler \<Rightarrow> MatchHandler" where
  "SetRefImage cv refimg h = h\<lparr>referDets := map (DetectAndCompute cv refimg) (referDets h)\<rparr>"

text \<open>One round of the matching loop of \<open>MatchImage\<close>, for either version of \<open>MatchDescriptors\<close>.\<close>

definition match_step ::
  "(Mat \<Rightarrow> Mat \<Rightarrow> Matcher \<Rightarrow> error + Matcher) \<Rightarrow> nat \<Rightarrow> MatchHandler \<Rightarrow> error + MatchHandler" where
  "match_step md i h =
     bind (vec_at (matchers h) i) (\<lambda>m.
     bind (vec_at (referDets h) i) (\<lambda>rd.
     bind (vec_at (inputDets h) i) (\<lambda>d.
     bind (md (r_descriptors (Detector_getResult rd)) (r_descriptors (Detector_getResult d)) m)
       (\<lambda>m'. Inr (h\<lparr>matchers := (matchers h)[i := m']\<rparr>)))))"

text \<open>\<open>MatchImage\<close> of the second source file; \<open>ratio\<close> is the value of the static.\<close>

definition MatchImage :: "Platform \<Rightarrow> float \<Rightarrow> Mat \<Rightarrow> MatchHandler \<Rightarrow> error + MatchHandler" where
  "MatchImage cv ratio inpimg h =
     (let h1 = h\<lparr>inputDets := map (DetectAndCompute cv inpimg) (inputDets h)\<rparr>
      in for_loop 0 (length (matchers h1)) (match_step (MatchDescriptors cv ratio)) h1)"

text \<open>\<open>MatchImage\<close> of \<open>feature.hpp\<close>.\<close>

definition MatchImage_hpp :: "Platform \<Rightarrow> float \<Rightarrow> Mat \<Rightarrow> MatchHandler \<Rightarrow> error + MatchHandler" where
  "MatchImage_hpp cv ratio inpimg h =
     (let h1 = h\<lparr>inputDets := map (DetectAndCompute cv inpimg) (inputDets h)\<rparr>
      in for_loop 0 (length (matchers h1)) (match_step (MatchDescriptors_hpp cv ratio)) h1)"

text \<open>
  \<open>ChangeAcceptRatio\<close> (both files; the console output of the second is left out).
  The result is the handler and the value that the last statement assigns to the static
  of \<open>Matcher::AcceptRatio\<close>; the assignment itself is part of \<open>step\<close> below, where
  the static is a component of the state.
\<close>

definition ChangeAcceptRatio :: "float \<Rightarrow> MatchHandler \<Rightarrow> MatchHandler \<times> float" where
  "ChangeAcceptRatio change h =
     (let a = float_add (acceptRatio h) change;
          a = std_max (std_min a (Fin 1)) (Fin 0)
      in (h\<lparr>acceptRatio := a\<rparr>, a))"


section \<open>Drawing\<close>

text \<open>
  The statements of \<open>DrawSingleResult\<close> that follow the call of \<open>cv::drawMatches\<close>, the
  same in both files. \<open>cv::Mat::clone\<close> copies and \<open>release\<close> drops a reference, which
  leaves the value unchanged. The local \<open>result_\<close> is written \<open>result_img\<close>.
\<close>

definition finish_frame :: "Platform \<Rightarrow> Mat \<Rightarrow> string \<Rightarrow> Mat" where
  "finish_frame cv matchimg nm =
     (let result_img = Mat_default;
          maxheight = (0::int);
          matchimg = putText cv matchimg nm;
          result_img = (if Mat_empty result_img then matchimg else vconcat cv [result_img, matchimg]);
          resimg = result_img
      in if 100 < maxheight \<and> maxheight < rows resimg
         then (let scale = f32_div (f32_of_int maxheight) (f32_of_int (rows resimg));
                   neosize = (f32_to_int (f32_mul (f32_of_int (cols resimg)) scale),
                              f32_to_int (f32_mul (f32_of_int (rows resimg)) scale))
               in resize cv resimg neosize)
         else resimg)"

text \<open>
  \<open>DrawSingleResult\<close> of the second source file: \<open>cv::drawMatches\<close> runs inside
  \<open>try\<close>, a \<open>std::exception\<close> is written to \<open>std::cerr\<close> and drawing goes on with
  whatever \<open>matchimg\<close> holds. The result is the frame and the lines written to \<open>std::cerr\<close>.
\<close>

definition DrawSingleResult ::
  "Platform \<Rightarrow> DetectResult \<Rightarrow> DetectResult \<Rightarrow> MatcherResult \<Rightarrow> Mat \<times> string list" where
  "DrawSingleResult cv refDet inpDet mtch =
     (let (matchimg, thrown) =
            drawMatches cv (r_image inpDet) (r_keypts inpDet) (r_image refDet) (r_keypts refDet)
              (mr_matches mtch);
          cerr = (case thrown of None \<Rightarrow> [] | Some what \<Rightarrow> [what])
      in (finish_frame cv matchimg (r_name inpDet), cerr))"

text \<open>\<open>DrawSingleResult\<close> of \<open>feature.hpp\<close>: no \<open>try\<close>, an exception leaves the function.\<close>

definition DrawSingleResult_hpp ::
  "Platform \<Rightarrow> DetectResult \<Rightarrow> DetectResult \<Rightarrow> MatcherResult \<Rightarrow> error + Mat" where
  "DrawSingleResult_hpp cv refDet inpDet mtch =
     (let (matchimg, thrown) =
            drawMatches cv (r_image inpDet) (r_keypts inpDet) (r_image refDet) (r_keypts refDet)
              (mr_matches mtch)
      in case thrown of
           Some what \<Rightarrow> Inl (StdException what)
         | None \<Rightarrow> Inr (finish_frame cv matchimg (r_name inpDet)))"

text \<open>The three \<open>getResult()\<close> arguments of round \<open>i\<close> of the drawing loop.\<close>

definition draw_args ::
  "MatchHandler \<Rightarrow> nat \<Rightarrow> error + (DetectResult \<times> DetectResult \<times> MatcherResult)" where
  "draw_args h i =
     bind (vec_at (referDets h) i) (\<lambda>rd.
     bind (vec_at (inputDets h) i) (\<lambda>d.
     bind (vec_at (matchers h) i) (\<lambda>m.
     Inr (Detector_getResult rd, Detector_getResult d, Matcher_getResult m))))"

text \<open>
  \<open>DrawMatchResult\<close> of the second source file. Image sizes are not negative, so the
  C++ division by two is \<open>div\<close>.
\<close>

definition DrawMatchResult :: "Platform \<Rightarrow> int \<Rightarrow> MatchHandler \<Rightarrow> error + (Mat \<times> string list)" where
  "DrawMatchResult cv maxHeight h =
     bind (for_loop 0 (length (matchers h))
             (\<lambda>i (resultImgs, cerr).
                bind (draw_args h i) (\<lambda>(rd, d, m).
                  (let (result, lg) = DrawSingleResult cv rd d m
                   in Inr (resultImgs @ [result], cerr @ lg))))
             ([], []))
       (\<lambda>(resultImgs, cerr).
          (let stackedResult = vconcat cv resultImgs;
               stackedResult =
                 (if maxHeight < rows stackedResult
                  then resize cv stackedResult (cols stackedResult div 2, rows stackedResult div 2)
                  else stackedResult)
           in Inr (stackedResult, cerr)))"

text \<open>\<open>DrawMatchResult\<close> of \<open>feature.hpp\<close>: the composite is returned as stacked.\<close>

definition DrawMatchResult_hpp :: "Platform \<Rightarrow> int \<Rightarrow> MatchHandler \<Rightarrow> error + Mat" where
  "DrawMatchResult_hpp cv maxHeight h =
     bind (for_loop 0 (length (matchers h))
             (\<lambda>i resultImgs.
                bind (draw_args h i) (\<lambda>(rd, d, m).
                bind (DrawSingleResult_hpp cv rd d m) (\<lambda>result.
                Inr (resultImgs @ [result]))))
             [])
       (\<lambda>resultImgs. Inr (vconcat cv resultImgs))"


section \<open>Client programs\<close>

text \<open>
  The static of \<open>Matcher::AcceptRatio\<close> belongs to the whole program, not to a handler.
  The state of a program is the value of the static, which starts at \<open>0.5f\<close>, and the
  handlers constructed so far. A client is a list of calls of the public members, each
  naming its handler by the index of its construction; a call on a handler that does not
  exist is undefined. The source file in use is a parameter.
\<close>

datatype source = feature_hpp | part_000

record Process =
  AcceptRatio_static :: float
  handlers :: "MatchHandler list"

definition Process_start :: Process where
  "Process_start = \<lparr>AcceptRatio_static = AcceptRatio_init, handlers = []\<rparr>"

datatype call =
    call_MatchHandler "string list" "string list"
  | call_SetRefImage nat Mat
  | call_MatchImage nat Mat
  | call_ChangeAcceptRatio nat float
  | call_DrawMatchResult nat int

fun is_ChangeAcceptRatio :: "call \<Rightarrow> bool" where
  "is_ChangeAcceptRatio (call_ChangeAcceptRatio k change) = True"
| "is_ChangeAcceptRatio c = False"

definition MatchHandler_of :: "source \<Rightarrow> string list \<Rightarrow> string list \<Rightarrow> error + MatchHandler" where
  "MatchHandler_of src =
     (case src of feature_hpp \<Rightarrow> MatchHandler_ctor_hpp | part_000 \<Rightarrow> MatchHandler_ctor)"

definition MatchImage_of ::
  "source \<Rightarrow> Platform \<Rightarrow> float \<Rightarrow> Mat \<Rightarrow> MatchHandler \<Rightarrow> error + MatchHandler" where
  "MatchImage_of src =
     (case src of feature_hpp \<Rightarrow> MatchImage_hpp | part_000 \<Rightarrow> MatchImage)"

definition DrawMatchResult_of :: "source \<Rightarrow> Platform \<Rightarrow> int \<Rightarrow> MatchHandler \<Rightarrow> error + Mat" where
  "DrawMatchResult_of src cv maxHeight h =
     (case src of
        feature_hpp \<Rightarrow> DrawMatchResult_hpp cv maxHeight h
      | part_000 \<Rightarrow> bind (DrawMatchResult cv maxHeight h) (\<lambda>(img, cerr). Inr img))"

text \<open>
  One call. \<open>MatchImage\<close> reads the static when its \<open>MatchDescriptors\<close> calls
  \<open>AcceptRatio()\<close>; \<open>ChangeAcceptRatio\<close> assigns to it; the image that
  \<open>DrawMatchResult\<close> returns goes to the client and leaves the state as it is.
\<close>

definition step :: "source \<Rightarrow> Platform \<Rightarrow> call \<Rightarrow> Process \<Rightarrow> error + Process" where
  "step src cv c p =
     (case c of
        call_MatchHandler features matcher_names \<Rightarrow>
          bind (MatchHandler_of src features matcher_names) (\<lambda>h.
          Inr (p\<lparr>handlers := handlers p @ [h]\<rparr>))
      | call_SetRefImage k refimg \<Rightarrow>
          bind (vec_at (handlers p) k) (\<lambda>h.
          Inr (p\<lparr>handlers := (handlers p)[k := SetRefImage cv refimg h]\<rparr>))
      | call_MatchImage k inpimg \<Rightarrow>
          bind (vec_at (handlers p) k) (\<lambda>h.
          bind (MatchImage_of src cv (AcceptRatio_static p) inpimg h) (\<lambda>h'.
          Inr (p\<lparr>handlers := (handlers p)[k := h']\<rparr>)))
      | call_ChangeAcceptRatio k change \<Rightarrow>
          bind (vec_at (handlers p) k) (\<lambda>h.
          (let (h', a) = ChangeAcceptRatio change h
           in Inr (p\<lparr>AcceptRatio_static := a, handlers := (handlers p)[k := h']\<rparr>)))
      | call_DrawMatchResult k maxHeight \<Rightarrow>
          bind (vec_at (handlers p) k) (\<lambda>h.
          bind (DrawMatchResult_of src cv maxHeight h) (\<lambda>img. Inr p)))"

fun run :: "source \<Rightarrow> Platform \<Rightarrow> call list \<Rightarrow> Process \<Rightarrow> error + Process" where
  "run src cv [] p = Inr p"
| "run src cv (c # cs) p = bind (step src cv c p) (run src cv cs)"


section \<open>A test double for the library\<close>

text \<open>
  A small executable stand-in for the library, used to run the model on concrete inputs.
  It finds one keypoint and one descriptor per image row (none at all for ORB keypoints),
  reports one match per query descriptor with distances falling along the list, sorts by
  distance, refuses to draw without keypoints of the first image, and stacks, annotates and
  resizes rasters by their dimensions. It stands for a build in which a call that reaches
  the end of \<open>MatchDescriptors\<close> comes back to its caller.
\<close>

definition demo_detect :: "Feature2D \<Rightarrow> Mat \<Rightarrow> KeyPoint list \<times> Mat" where
  "demo_detect f img =
     ((if f = ORB_create then [] else map (\<lambda>i. KeyPoint (of_nat i) 0) [0..<nat (rows img)]),
      \<lparr>rows = rows img, cols = 1, data = data img\<rparr>)"

definition demo_match :: "DescriptorMatcher \<Rightarrow> Mat \<Rightarrow> Mat \<Rightarrow> DMatch list" where
  "demo_match mt q t =
     map (\<lambda>i. \<lparr>queryIdx = int i, trainIdx = 0, imgIdx = 0,
                distance = of_nat (nat (rows q) - i)\<rparr>) [0..<nat (rows q)]"

definition demo_drawMatches ::
  "Mat \<Rightarrow> KeyPoint list \<Rightarrow> Mat \<Rightarrow> KeyPoint list \<Rightarrow> DMatch list \<Rightarrow> Mat \<times> string option" where
  "demo_drawMatches img1 kp1 img2 kp2 ms =
     (if kp1 = [] then (Mat_default, Some ''no keypoints'')
      else (\<lparr>rows = max (rows img1) (rows img2), cols = cols img1 + cols img2,
             data = data img1 @ data img2\<rparr>, None))"

definition demo_vconcat :: "Mat list \<Rightarrow> Mat" where
  "demo_vconcat ms =
     \<lparr>rows = sum_list (map rows ms), cols = (case ms of [] \<Rightarrow> 0 | m # _ \<Rightarrow> cols m),
      data = concat (map data ms)\<rparr>"

definition demo_cv :: Platform where
  "demo_cv =
     \<lparr>detectAndCompute = demo_detect,
      match = demo_match,
      std_sort = sort_key distance,
      drawMatches = demo_drawMatches,
      putText = (\<lambda>m s. m\<lparr>data := data m @ map of_char s\<rparr>),
      vconcat = demo_vconcat,
      resize = (\<lambda>m (w, h). m\<lparr>rows := h, cols := w\<rparr>),
      off_end_returns = True\<rparr>"

text \<open>A raster of \<open>r\<close> rows and one column.\<close>

definition column_image :: "nat \<Rightarrow> Mat" where
  "column_image r = \<lparr>rows = int r, cols = 1, data = replicate r 0\<rparr>"


section \<open>Observations on a handler\<close>

text \<open>
  Which algorithm objects, under which names, sit at each index of the three lists, and
  how long the lists are. These are what the pairing of pipelines is stated with.
\<close>

definition pipelines ::
  "MatchHandler \<Rightarrow>
     (string \<times> Feature2D) list \<times> (string \<times> Feature2D) list \<times> (string \<times> DescriptorMatcher) list" where
  "pipelines h =
     (map (\<lambda>d. (name d, feature d)) (referDets h),
      map (\<lambda>d. (name d, feature d)) (inputDets h),
      map (\<lambda>m. (mname m, matcher m)) (matchers h))"

definition sizes :: "MatchHandler \<Rightarrow> nat \<times> nat \<times> nat" where
  "sizes h = (length (referDets h), length (inputDets h), length (matchers h))"


section \<open>Rounding to single precision\<close>

declare ilog2.simps [simp del]

lemma ilog2_bounds: "0 < n \<Longrightarrow> 2 ^ ilog2 n \<le> n \<and> n < 2 ^ Suc (ilog2 n)"
proof (induction n rule: ilog2.induct)
  case (1 n)
  show ?case
  proof (cases "n < 2")
    case True
    with "1.prems" show ?thesis by (simp add: ilog2.simps [of n])
  next
    case False
    then have pos: "0 < n div 2" by simp
    from "1.IH" [OF False pos]
    have lo: "2 ^ ilog2 (n div 2) \<le> n div 2" and hi: "n div 2 < 2 ^ Suc (ilog2 (n div 2))"
      by simp_all
    have eq: "ilog2 n = Suc (ilog2 (n div 2))"
      using False by (simp add: ilog2.simps [of n])
    from lo have "2 * 2 ^ ilog2 (n div 2) \<le> n" by linarith
    moreover from hi have "n < 2 * 2 ^ Suc (ilog2 (n div 2))" by linarith
    ultimately show ?thesis by (simp add: eq)
  qed
qed

lemma expo_bounds:
  assumes "x \<noteq> 0"
  shows "2 powi expo x \<le> \<bar>x\<bar>" and "\<bar>x\<bar> < 2 powi (expo x + 1)"
proof -
  obtain a b where q: "quotient_of \<bar>x\<bar> = (a, b)" by (cases "quotient_of \<bar>x\<bar>")
  have bpos: "0 < b" using quotient_of_denom_pos [OF q] .
  have xeq: "\<bar>x\<bar> = of_int a / of_int b" using quotient_of_div [OF q] .
  have apos: "0 < a"
  proof -
    have "0 < \<bar>x\<bar>" using assms by simp
    then have "0 < (of_int a :: rat) / of_int b" by (simp add: xeq)
    with bpos show ?thesis by (simp add: zero_less_divide_iff)
  qed
  define la where "la = ilog2 (nat a)"
  define lb where "lb = ilog2 (nat b)"
  define k where "k = int la - int lb"
  have A: "2 ^ la \<le> nat a" "nat a < 2 ^ Suc la"
    using ilog2_bounds [of "nat a"] apos by (simp_all add: la_def)
  have B: "2 ^ lb \<le> nat b" "nat b < 2 ^ Suc lb"
    using ilog2_bounds [of "nat b"] bpos by (simp_all add: lb_def)
  have a_nat: "(of_int a :: rat) = of_nat (nat a)" using apos by simp
  have b_nat: "(of_int b :: rat) = of_nat (nat b)" using bpos by simp
  have Ar: "(2::rat) ^ la \<le> of_int a" "(of_int a :: rat) < 2 ^ Suc la"
    unfolding a_nat using A by (metis of_nat_le_iff of_nat_numeral of_nat_power, metis of_nat_less_iff of_nat_numeral of_nat_power)
  have Br: "(2::rat) ^ lb \<le> of_int b" "(of_int b :: rat) < 2 ^ Suc lb"
    unfolding b_nat using B by (metis of_nat_le_iff of_nat_numeral of_nat_power, metis of_nat_less_iff of_nat_numeral of_nat_power)
  have bposr: "(0::rat) < of_int b" using bpos by simp
  have up: "\<bar>x\<bar> < 2 powi (k + 1)"
  proof -
    have "of_int a / of_int b < (2::rat) ^ Suc la / 2 ^ lb"
      using Ar(2) Br(1) apos by (intro frac_less) auto
    also have "\<dots> = 2 powi (k + 1)"
      by (simp add: k_def power_int_diff power_int_add)
    finally show ?thesis by (simp add: xeq)
  qed
  have low: "2 powi (k - 1) < \<bar>x\<bar>"
  proof -
    have "(2::rat) powi (k - 1) = 2 ^ la / 2 ^ Suc lb"
      by (simp add: k_def power_int_diff)
    also have "\<dots> < of_int a / of_int b"
      using Ar(1) Br(2) bposr by (intro frac_less2) auto
    finally show ?thesis by (simp add: xeq)
  qed
  have e: "expo x = (if 2 powi k \<le> \<bar>x\<bar> then k else k - 1)"
    by (simp add: expo_def q k_def la_def lb_def Let_def)
  show "2 powi expo x \<le> \<bar>x\<bar>" using low by (simp add: e)
  show "\<bar>x\<bar> < 2 powi (expo x + 1)" using up by (auto simp: e not_le)
qed

lemma expo_less: "x \<noteq> 0 \<Longrightarrow> \<bar>x\<bar> < 2 powi j \<Longrightarrow> expo x < j"
proof -
  assume "x \<noteq> 0" and lt: "\<bar>x\<bar> < 2 powi j"
  then have "(2::rat) powi expo x < 2 powi j"
    using expo_bounds(1) [of x] by linarith
  show ?thesis
  proof (rule ccontr)
    assume "\<not> expo x < j"
    then have "(2::rat) powi j \<le> 2 powi expo x"
      by (intro power_int_increasing) auto
    with \<open>(2::rat) powi expo x < 2 powi j\<close> show False by simp
  qed
qed

lemma expo_ge: "x \<noteq> 0 \<Longrightarrow> 2 powi j \<le> \<bar>x\<bar> \<Longrightarrow> j \<le> expo x"
proof -
  assume "x \<noteq> 0" and le: "2 powi j \<le> \<bar>x\<bar>"
  then have lt: "(2::rat) powi j < 2 powi (expo x + 1)"
    using expo_bounds(2) [of x] by linarith
  show ?thesis
  proof (rule ccontr)
    assume "\<not> j \<le> expo x"
    then have "(2::rat) powi (expo x + 1) \<le> 2 powi j"
      by (intro power_int_increasing) auto
    with lt show False by simp
  qed
qed

lemma round_even_of_int: "round_even (of_int k) = k"
  by (simp add: round_even_def)

lemma round_even_le: "q \<le> of_int k \<Longrightarrow> round_even q \<le> k"
proof -
  assume le: "q \<le> of_int k"
  then have fl: "\<lfloor>q\<rfloor> \<le> k" by (simp add: floor_le_iff) 
  show ?thesis
  proof (cases "\<lfloor>q\<rfloor> = k")
    case True
    then have "q = of_int k" using le of_int_floor_le [of q] by simp
    then show ?thesis by (simp add: round_even_of_int)
  next
    case False
    with fl have "\<lfloor>q\<rfloor> + 1 \<le> k" by simp
    then show ?thesis by (simp add: round_even_def Let_def)
  qed
qed

lemma round_even_ge: "of_int k \<le> q \<Longrightarrow> k \<le> round_even q"
proof -
  assume "of_int k \<le> q"
  then have "k \<le> \<lfloor>q\<rfloor>" by (simp add: le_floor_iff)
  then show ?thesis by (simp add: round_even_def Let_def)
qed



lemma ulp_pos: "0 < ulp x"
  by (simp add: ulp_def)

lemma f32_round_ulp: "x \<noteq> 0 \<Longrightarrow> f32_round x = of_int (round_even (x / ulp x)) * ulp x"
  by (simp add: f32_round_def)

lemma f32_round_grid_le:
  assumes "x \<le> of_int k * ulp x"
  shows "f32_round x \<le> of_int k * ulp x"
proof (cases "x = 0")
  case True
  with assms show ?thesis by (simp add: f32_round_def)
next
  case False
  have "x / ulp x \<le> of_int k"
    using assms ulp_pos [of x] by (simp add: pos_divide_le_eq)
  then have "round_even (x / ulp x) \<le> k" by (rule round_even_le)
  then have "(of_int (round_even (x / ulp x)) :: rat) \<le> of_int k" by simp
  then have "of_int (round_even (x / ulp x)) * ulp x \<le> of_int k * ulp x"
    using ulp_pos [of x] by (simp add: mult_right_mono)
  then show ?thesis by (simp add: f32_round_ulp [OF False])
qed

lemma f32_round_grid_ge:
  assumes "of_int k * ulp x \<le> x"
  shows "of_int k * ulp x \<le> f32_round x"
proof (cases "x = 0")
  case True
  with assms show ?thesis by (simp add: f32_round_def)
next
  case False
  have "of_int k \<le> x / ulp x"
    using assms ulp_pos [of x] by (simp add: pos_le_divide_eq)
  then have "k \<le> round_even (x / ulp x)" by (rule round_even_ge)
  then have "(of_int k :: rat) \<le> of_int (round_even (x / ulp x))" by simp
  then have "of_int k * ulp x \<le> of_int (round_even (x / ulp x)) * ulp x"
    using ulp_pos [of x] by (simp add: mult_right_mono)
  then show ?thesis by (simp add: f32_round_ulp [OF False])
qed

lemma f32_round_fix: "x = of_int k * ulp x \<Longrightarrow> f32_round x = x"
  using f32_round_grid_le [of x k] f32_round_grid_ge [of k x] by simp

lemma f32_round_nonneg: "0 \<le> x \<Longrightarrow> 0 \<le> f32_round x"
  using f32_round_grid_ge [of 0 x] by simp

lemma f32_round_nonpos: "x \<le> 0 \<Longrightarrow> f32_round x \<le> 0"
  using f32_round_grid_le [of x 0] by simp

text \<open>Below \<open>2 ^ (24 - d)\<close> every multiple of \<open>2 ^ - d\<close> lies on the grid.\<close>

lemma dyadic_on_grid:
  assumes "\<bar>x\<bar> < 2 ^ (24 - d)" and "d \<le> 24"
  shows "\<exists>c. 1 / 2 ^ d = of_int c * ulp x"
proof -
  have e: "max (expo x) (- 126) \<le> 23 - int d"
  proof (cases "x = 0")
    case True
    have "expo (0::rat) = - 1"
      by (simp add: expo_def ilog2.simps [of 0] ilog2.simps [of "Suc 0"])
    with True assms(2) show ?thesis by simp
  next
    case False
    have "\<bar>x\<bar> < 2 powi (24 - int d)"
      using assms by (simp add: power_int_def nat_diff_distrib)
    from expo_less [OF False this] assms(2) show ?thesis by simp
  qed
  define m where "m = nat (23 - int d - max (expo x) (- 126))"
  have "(1::rat) / 2 ^ d = 2 powi (- int d)"
    by (simp add: power_int_minus_divide)
  also have "\<dots> = 2 powi (int m) * ulp x"
    using e by (simp add: ulp_def m_def flip: power_int_add)
  also have "\<dots> = of_int (2 ^ m) * ulp x" by simp
  finally show ?thesis by blast
qed

lemma f32_round_dyadic:
  assumes "\<bar>of_int j / 2 ^ d :: rat\<bar> < 2 ^ (24 - d)" and "d \<le> 24"
  shows "f32_round (of_int j / 2 ^ d) = of_int j / 2 ^ d"
proof -
  obtain c where c: "1 / 2 ^ d = of_int c * ulp (of_int j / 2 ^ d)"
    using dyadic_on_grid [OF assms] by blast
  have "of_int j / 2 ^ d = of_int j * ((1::rat) / 2 ^ d)" by simp
  also have "\<dots> = of_int (j * c) * ulp (of_int j / 2 ^ d)"
    by (simp only: c of_int_mult mult.assoc)
  finally show ?thesis by (rule f32_round_fix)
qed

lemma f32_round_of_nat: "n < 2 ^ 24 \<Longrightarrow> f32_round (of_nat n) = of_nat n"
  using f32_round_dyadic [of "int n" 0] by simp

lemma f32_round_half: "n < 2 ^ 24 \<Longrightarrow> f32_round (of_nat n * (1 / 2)) = of_nat n / 2"
  using f32_round_dyadic [of "int n" 1] by simp

lemma f32_round_le_nat:
  assumes "0 \<le> x" "x \<le> of_nat n" "n < 2 ^ 24"
  shows "f32_round x \<le> of_nat n"
proof -
  have "\<bar>x\<bar> < 2 ^ (24 - 0)"
  proof -
    have "(of_nat n :: rat) < of_nat (2 ^ 24)" using assms(3) by (simp only: of_nat_less_iff)
    with assms show ?thesis by simp
  qed
  from dyadic_on_grid [OF this] obtain c where c: "1 = of_int c * ulp x" by auto
  have "of_nat n = of_int (int n) * (1::rat)" by simp
  also have "\<dots> = of_int (int n * c) * ulp x"
    by (simp only: c of_int_mult mult.assoc)
  finally have g: "of_nat n = of_int (int n * c) * ulp x" .
  from assms(2) g have "x \<le> of_int (int n * c) * ulp x"
    by (rule ord_le_eq_trans)
  then have "f32_round x \<le> of_int (int n * c) * ulp x"
    by (rule f32_round_grid_le)
  then show ?thesis by (simp only: g [symmetric])
qed

lemma f32_round_ge_one: "1 \<le> x \<Longrightarrow> 1 \<le> f32_round x"
proof -
  assume x: "1 \<le> x"
  then have nz: "x \<noteq> 0" by simp
  have "2 powi 0 \<le> \<bar>x\<bar>" using x by simp
  from expo_ge [OF nz this] have e0: "0 \<le> expo x" .
  have u: "ulp x = 2 powi (expo x - 23)"
    using e0 by (simp add: ulp_def)
  have "(2::rat) powi expo x = 2 powi (23 + (expo x - 23))" by simp
  also have "\<dots> = 2 powi 23 * 2 powi (expo x - 23)"
    by (rule power_int_add) simp
  also have "\<dots> = of_int (2 ^ 23) * ulp x" by (simp add: u)
  finally have g: "(2::rat) powi expo x = of_int (2 ^ 23) * ulp x" .
  have "of_int (2 ^ 23) * ulp x \<le> x"
    using expo_bounds(1) [OF nz] x g by simp
  from f32_round_grid_ge [OF this] have "2 powi expo x \<le> f32_round x" by (simp only: g)
  moreover have "(1::rat) \<le> 2 powi expo x" using e0 by (intro one_le_power_int) auto
  ultimately show ?thesis by linarith
qed


lemma expo_eq:
  assumes "2 powi e \<le> \<bar>x\<bar>" "\<bar>x\<bar> < 2 powi (e + 1)"
  shows "expo x = e"
proof -
  have "0 < \<bar>x\<bar>"
    using assms(1) zero_less_power_int [of "2::rat" e] by linarith
  then have nz: "x \<noteq> 0" by simp
  from expo_ge [OF nz assms(1)] expo_less [OF nz assms(2)] show ?thesis by simp
qed

lemma f32_round_eval:
  assumes "2 powi e \<le> \<bar>x\<bar>" "\<bar>x\<bar> < 2 powi (e + 1)" "- 126 \<le> e"
  shows "f32_round x = of_int (round_even (x / 2 powi (e - 23))) * 2 powi (e - 23)"
proof -
  have "0 < \<bar>x\<bar>"
    using assms(1) zero_less_power_int [of "2::rat" e] by linarith
  then have nz: "x \<noteq> 0" by simp
  have "ulp x = 2 powi (e - 23)"
    using assms(3) by (simp add: ulp_def expo_eq [OF assms(1,2)])
  then show ?thesis by (simp add: f32_round_def nz)
qed

lemma round_even_frac:
  assumes "0 < b"
  shows "round_even (of_int a / of_int b) =
    (if 2 * (a mod b) < b then a div b
     else if b < 2 * (a mod b) then a div b + 1
     else if even (a div b) then a div b else a div b + 1)"
proof -
  have fl: "\<lfloor>(of_int a :: rat) / of_int b\<rfloor> = a div b"
    by (rule floor_divide_of_int_eq)
  have bpos: "(0::rat) < of_int b" using assms by simp
  have "(of_int a :: rat) = of_int (a div b) * of_int b + of_int (a mod b)"
    by (simp flip: of_int_mult of_int_add)
  then have r: "(of_int a :: rat) / of_int b - of_int (a div b) = of_int (a mod b) / of_int b"
    using bpos by (simp add: field_simps)
  have lt: "(of_int (a mod b) :: rat) / of_int b < 1 / 2 \<longleftrightarrow> 2 * (a mod b) < b"
  proof -
    have "(of_int (a mod b) :: rat) / of_int b < 1 / 2 \<longleftrightarrow>
          (of_int (2 * (a mod b)) :: rat) < of_int b"
      using bpos by (simp add: field_simps)
    then show ?thesis by (simp only: of_int_less_iff)
  qed
  have gt: "1 / 2 < (of_int (a mod b) :: rat) / of_int b \<longleftrightarrow> b < 2 * (a mod b)"
  proof -
    have "1 / 2 < (of_int (a mod b) :: rat) / of_int b \<longleftrightarrow>
          (of_int b :: rat) < of_int (2 * (a mod b))"
      using bpos by (simp add: field_simps)
    then show ?thesis by (simp only: of_int_less_iff)
  qed
  show ?thesis
    unfolding round_even_def Let_def fl r lt gt ..
qed


lemma f32_round_eight_tenths: "f32_round (8 / 10) = 13421773 / 16777216"
proof -
  have r: "round_even (67108864 / 5) = 13421773"
    using round_even_frac [of 5 67108864] by simp
  show ?thesis
    by (subst f32_round_eval [where e = "- 1"]) (simp_all add: r)
qed








section \<open>Operations on single-precision values\<close>

lemma float_of_rat_Fin: "\<bar>f32_round x\<bar> < 2 ^ 128 \<Longrightarrow> float_of_rat x = Fin (f32_round x)"
  by (auto simp: float_of_rat_def Let_def)

lemma float_of_rat_not_NaN: "float_of_rat x \<noteq> NaN"
  by (simp add: float_of_rat_def Let_def)

lemma float_of_rat_ge_one:
  assumes "1 \<le> x"
  shows "float_of_rat x = PInf \<or> (\<exists>r. float_of_rat x = Fin r \<and> 1 \<le> r)"
proof -
  have "1 \<le> f32_round x" using assms by (rule f32_round_ge_one)
  then show ?thesis by (auto simp: float_of_rat_def Let_def)
qed

lemma float_of_rat_nonpos:
  assumes "x \<le> 0"
  shows "float_of_rat x = NInf \<or> (\<exists>r. float_of_rat x = Fin r \<and> r \<le> 0)"
proof -
  have "f32_round x \<le> 0" using assms by (rule f32_round_nonpos)
  then show ?thesis by (auto simp: float_of_rat_def Let_def)
qed


lemma float_of_rat_eight_tenths: "float_of_rat (8 / 10) = Fin (13421773 / 16777216)"
  unfolding float_of_rat_def f32_round_eight_tenths by simp


text \<open>The clamp of \<open>ChangeAcceptRatio\<close> on a value that is not NaN.\<close>

lemma clamp_number:
  assumes "x \<noteq> NaN"
  shows "\<exists>s. std_max (std_min x (Fin 1)) (Fin 0) = Fin s \<and> 0 \<le> s \<and> s \<le> 1 \<and>
     (case x of Fin r \<Rightarrow> s = max (min r 1) 0 | PInf \<Rightarrow> s = 1 | NInf \<Rightarrow> s = 0 | NaN \<Rightarrow> False)"
  using assms by (cases x) (auto simp: std_min_def std_max_def)

lemma clamp_NaN: "std_max (std_min NaN (Fin 1)) (Fin 0) = NaN"
  by (simp add: std_min_def std_max_def)

lemma float_mul_NaN: "float_mul x NaN = NaN"
  by (cases x) simp_all

lemma float_add_not_NaN:
  assumes "change \<noteq> NaN"
  shows "float_add (Fin a) change \<noteq> NaN"
  using assms by (cases change) (simp_all add: float_of_rat_not_NaN)

lemma float_of_size_small: "n < 2 ^ 24 \<Longrightarrow> float_of_size n = Fin (of_nat n)"
proof -
  assume n: "n < 2 ^ 24"
  have "(of_nat n :: rat) < of_nat (2 ^ 24)" using n by (simp only: of_nat_less_iff)
  then have "\<bar>of_nat n :: rat\<bar> < 2 ^ 128" by simp
  then show ?thesis
    by (simp add: float_of_size_def float_of_rat_Fin f32_round_of_nat [OF n])
qed


section \<open>The factories\<close>

lemma bind_Inr [simp]: "bind (Inr x) f = f x"
  by (simp add: bind_def)

lemma bind_Inl [simp]: "bind (Inl e) f = Inl e"
  by (simp add: bind_def)

text \<open>
  C10. The two versions of \<open>Detector::Factory\<close> return the same result for every string:
  the detector of the named algorithm, carrying that name, for the five known names,
  and the thrown string \<open>error\<close> for every other string.
\<close>

theorem Detector_Factory_versions_agree:
  "Detector_Factory_hpp n = Detector_Factory n \<and>
   Detector_Factory n =
     (if n = ''sift'' then Inr (Detector_ctor ''sift'' SIFT_create)
      else if n = ''surf'' then Inr (Detector_ctor ''surf'' SURF_create)
      else if n = ''orb'' then Inr (Detector_ctor ''orb'' ORB_create)
      else if n = ''kaze'' then Inr (Detector_ctor ''kaze'' KAZE_create)
      else if n = ''brisk'' then Inr (Detector_ctor ''brisk'' BRISK_create)
      else Inl (Thrown ''error''))"
  by (simp add: Detector_Factory_hpp_def Detector_Factory_def)

theorem Detector_Factory_versions_agree_witness:
  "Detector_Factory_hpp ''kaze'' = Inr (Detector_ctor ''kaze'' KAZE_create) \<and>
   Detector_Factory_hpp ''kazoo'' = Inl (Thrown ''error'')"
  using Detector_Factory_versions_agree [of "''kaze''"]
    Detector_Factory_versions_agree [of "''kazoo''"]
  by simp

text \<open>
  C5. Outside the five detector names both detector factories throw, and on each of the
  five they return a detector of that name; outside \<open>flann\<close> and \<open>bf\<close> both matcher
  factories throw (whatever the descriptor name), and on these two they return a matcher
  of that name.
\<close>

theorem Factory_unknown_name_fails:
  "(n \<notin> {''sift'', ''surf'', ''orb'', ''kaze'', ''brisk''} \<longrightarrow>
      Detector_Factory n = Inl (Thrown ''error'') \<and>
      Detector_Factory_hpp n = Inl (Thrown ''error'')) \<and>
   (n \<in> {''sift'', ''surf'', ''orb'', ''kaze'', ''brisk''} \<longrightarrow>
      (\<exists>d. Detector_Factory n = Inr d \<and> name d = n) \<and>
      (\<exists>d. Detector_Factory_hpp n = Inr d \<and> name d = n)) \<and>
   (m \<notin> {''flann'', ''bf''} \<longrightarrow>
      Matcher_Factory m descName = Inl (Thrown ''error'') \<and>
      Matcher_Factory_hpp m = Inl (Thrown ''error'')) \<and>
   (m \<in> {''flann'', ''bf''} \<longrightarrow>
      (\<exists>x. Matcher_Factory m descName = Inr x \<and> mname x = m) \<and>
      (\<exists>x. Matcher_Factory_hpp m = Inr x \<and> mname x = m))"
  by (auto simp: Detector_Factory_def Detector_Factory_hpp_def Matcher_Factory_def
      Matcher_Factory_hpp_def Detector_ctor_def Matcher_ctor_def)

theorem Factory_unknown_name_fails_witness:
  "''sifted'' \<notin> {''sift'', ''surf'', ''orb'', ''kaze'', ''brisk''} \<and>
   Detector_Factory ''sifted'' = Inl (Thrown ''error'') \<and>
   ''brisk'' \<in> {''sift'', ''surf'', ''orb'', ''kaze'', ''brisk''} \<and>
   (\<exists>d. Detector_Factory ''brisk'' = Inr d \<and> name d = ''brisk'') \<and>
   ''knn'' \<notin> {''flann'', ''bf''} \<and>
   Matcher_Factory ''knn'' ''sift'' = Inl (Thrown ''error'') \<and>
   ''bf'' \<in> {''flann'', ''bf''} \<and>
   (\<exists>x. Matcher_Factory ''bf'' ''sift'' = Inr x \<and> mname x = ''bf'')"
  using Factory_unknown_name_fails [of "''sifted''" "''knn''" "''sift''"]
    Factory_unknown_name_fails [of "''brisk''" "''bf''" "''sift''"]
  by simp


section \<open>Sorting and cutting the matches\<close>

lemma sort_contract_length: "sort_contract srt xs \<Longrightarrow> length (srt xs) = length xs"
  by (auto simp: sort_contract_def dest: mset_eq_length)

lemma sort_contract_sort_key: "sort_contract (sort_key distance) xs"
  by (simp add: sort_contract_def)

lemma numGoodMatches_bounds:
  assumes "0 \<le> ratio" "ratio \<le> 1" "n < 2 ^ 24"
  shows "float_mul (float_of_size n) (Fin ratio) = Fin (f32_round (of_nat n * ratio))"
    and "float_to_int (float_mul (float_of_size n) (Fin ratio)) =
           Some \<lfloor>f32_round (of_nat n * ratio)\<rfloor>"
    and "0 \<le> \<lfloor>f32_round (of_nat n * ratio)\<rfloor>"
    and "\<lfloor>f32_round (of_nat n * ratio)\<rfloor> \<le> int n"
proof -
  have x0: "0 \<le> of_nat n * ratio" using assms(1) by simp
  have x1: "of_nat n * ratio \<le> of_nat n"
    using assms(2) by (simp add: mult_left_le)
  have r0: "0 \<le> f32_round (of_nat n * ratio)" using x0 by (rule f32_round_nonneg)
  have r1: "f32_round (of_nat n * ratio) \<le> of_nat n"
    using x0 x1 assms(3) by (rule f32_round_le_nat)
  have nb: "(of_nat n :: rat) < 2 ^ 24"
  proof -
    have "(of_nat n :: rat) < of_nat (2 ^ 24)" using assms(3) by (simp only: of_nat_less_iff)
    then show ?thesis by simp
  qed
  have "\<bar>f32_round (of_nat n * ratio)\<bar> < 2 ^ 128" using r0 r1 nb by simp
  then have "float_of_rat (of_nat n * ratio) = Fin (f32_round (of_nat n * ratio))"
    by (rule float_of_rat_Fin)
  then show eq: "float_mul (float_of_size n) (Fin ratio) = Fin (f32_round (of_nat n * ratio))"
    by (simp add: float_of_size_small [OF assms(3)])
  show f0: "0 \<le> \<lfloor>f32_round (of_nat n * ratio)\<rfloor>" using r0 by simp
  show f1: "\<lfloor>f32_round (of_nat n * ratio)\<rfloor> \<le> int n"
    using r1 by (simp add: floor_le_iff)
  have "f32_round (of_nat n * ratio) < 2 ^ 31" using r1 nb by simp
  then have "\<lfloor>f32_round (of_nat n * ratio)\<rfloor> < 2 ^ 31" by (simp add: floor_less_iff)
  with f0
  show "float_to_int (float_mul (float_of_size n) (Fin ratio)) =
           Some \<lfloor>f32_round (of_nat n * ratio)\<rfloor>"
    using r0 by (simp add: eq Let_def)
qed


lemma MatchDescriptors_result:
  assumes "off_end_returns cv"
    and "sort_contract (std_sort cv) (match cv (matcher m) inputDesc referDesc)"
    and "0 \<le> ratio" "ratio \<le> 1"
    and "length (match cv (matcher m) inputDesc referDesc) < 2 ^ 24"
  shows "MatchDescriptors cv (Fin ratio) referDesc inputDesc m =
     Inr (m\<lparr>matches :=
       take (nat \<lfloor>f32_round (of_nat (length (match cv (matcher m) inputDesc referDesc)) * ratio)\<rfloor>)
         (std_sort cv (match cv (matcher m) inputDesc referDesc))\<rparr>)"
proof -
  define raw where "raw = match cv (matcher m) inputDesc referDesc"
  have len: "length (std_sort cv raw) = length raw"
    using assms(2) unfolding raw_def by (rule sort_contract_length)
  note b = numGoodMatches_bounds [OF assms(3,4), of "length raw"]
  have n: "length raw < 2 ^ 24" using assms(5) by (simp add: raw_def)
  show ?thesis
    unfolding MatchDescriptors_def raw_def [symmetric] Let_def len
    using b(3,4) [OF n] assms(1) by (simp only: b(2) [OF n] option.case if_True simp_thms)
qed

lemma MatchDescriptors_hpp_result:
  assumes "off_end_returns cv"
    and "sort_contract (std_sort cv) (match cv (matcher m) inputDesc referDesc)"
    and "0 \<le> ratio" "ratio \<le> 1"
    and "length (match cv (matcher m) inputDesc referDesc) < 2 ^ 24"
  shows "MatchDescriptors_hpp cv (Fin ratio) referDesc inputDesc m = Inr m"
proof -
  define raw where "raw = match cv (matcher m) inputDesc referDesc"
  have len: "length (std_sort cv raw) = length raw"
    using assms(2) unfolding raw_def by (rule sort_contract_length)
  note b = numGoodMatches_bounds [OF assms(3,4), of "length raw"]
  have n: "length raw < 2 ^ 24" using assms(5) by (simp add: raw_def)
  show ?thesis
    unfolding MatchDescriptors_hpp_def raw_def [symmetric] Let_def len
    using b(3,4) [OF n] assms(1) by (simp only: b(2) [OF n] option.case if_True simp_thms)
qed




lemma length_demo_match [simp]: "length (demo_match mt q t) = nat (rows q)"
  by (simp add: demo_match_def)

lemma demo_cv_simps [simp]:
  "match demo_cv = demo_match"
  "std_sort demo_cv = sort_key distance"
  "detectAndCompute demo_cv = demo_detect"
  "drawMatches demo_cv = demo_drawMatches"
  "vconcat demo_cv = demo_vconcat"
  "putText demo_cv = (\<lambda>m s. m\<lparr>data := data m @ map of_char s\<rparr>)"
  "resize demo_cv = (\<lambda>m (w, h). m\<lparr>rows := h, cols := w\<rparr>)"
  "off_end_returns demo_cv"
  by (simp_all add: demo_cv_def)








section \<open>Construction and the operations of a handler\<close>

lemma bind_eq_Inr: "bind r f = Inr y \<longleftrightarrow> (\<exists>x. r = Inr x \<and> f x = Inr y)"
  by (cases r) simp_all

lemma foreach_push_ok:
  "(\<And>x. x \<in> set xs \<Longrightarrow> f x = Inr (g x)) \<Longrightarrow> foreach_push f xs out = Inr (out @ map g xs)"
  by (induction xs arbitrary: out) simp_all

lemma for_loop_push:
  "(\<And>j s. i \<le> j \<Longrightarrow> j < i + n \<Longrightarrow> body j s = Inr (s @ [g j])) \<Longrightarrow>
   for_loop i n body s = Inr (s @ map g [i..<i + n])"
proof (induction n arbitrary: i s)
  case 0
  then show ?case by simp
next
  case (Suc n)
  have step: "body i s = Inr (s @ [g i])" by (rule Suc.prems) simp_all
  have "for_loop (Suc i) n body (s @ [g i]) = Inr ((s @ [g i]) @ map g [Suc i..<Suc i + n])"
    by (rule Suc.IH) (simp_all add: Suc.prems)
  moreover have "[i..<i + Suc n] = i # [Suc i..<Suc i + n]"
    using upt_conv_Cons [of i "i + Suc n"] by simp
  ultimately show ?case by (simp only: for_loop.simps step bind_Inr map_append list.map append.simps append_assoc)
qed

lemma for_loop_preserves:
  assumes "\<And>j s s'. body j s = Inr s' \<Longrightarrow> f s' = f s"
  shows "for_loop i n body s = Inr s' \<Longrightarrow> f s' = f s"
proof (induction n arbitrary: i s)
  case 0
  then show ?case by simp
next
  case (Suc n)
  from Suc.prems obtain s1 where s1: "body i s = Inr s1" "for_loop (Suc i) n body s1 = Inr s'"
    by (auto simp: bind_eq_Inr)
  from Suc.IH [OF s1(2)] assms [OF s1(1)] show ?case by simp
qed

lemma Detector_Factory_projr:
  "n \<in> {''sift'', ''surf'', ''orb'', ''kaze'', ''brisk''} \<Longrightarrow>
   Detector_Factory n = Inr (projr (Detector_Factory n))"
  by (elim insertE emptyE) (simp_all add: Detector_Factory_def)

lemma Matcher_Factory_projr:
  "m \<in> {''flann'', ''bf''} \<Longrightarrow> Matcher_Factory m d = Inr (projr (Matcher_Factory m d))"
  by (elim insertE emptyE) (simp_all add: Matcher_Factory_def)

lemma Matcher_Factory_hpp_projr:
  "m \<in> {''flann'', ''bf''} \<Longrightarrow> Matcher_Factory_hpp m = Inr (projr (Matcher_Factory_hpp m))"
  by (elim insertE emptyE) (simp_all add: Matcher_Factory_hpp_def)

lemma Detector_Factory_hpp_eq: "Detector_Factory_hpp n = Detector_Factory n"
  by (simp add: Detector_Factory_hpp_def Detector_Factory_def)

lemma name_projr_Detector_Factory:
  "n \<in> {''sift'', ''surf'', ''orb'', ''kaze'', ''brisk''} \<Longrightarrow>
   name (projr (Detector_Factory n)) = n"
  by (elim insertE emptyE) (simp_all add: Detector_Factory_def Detector_ctor_def)

lemma MatchHandler_ctor_ok:
  assumes len: "length features = length matcher_names"
    and fs: "set features \<subseteq> {''sift'', ''surf'', ''orb'', ''kaze'', ''brisk''}"
    and ms: "set matcher_names \<subseteq> {''flann'', ''bf''}"
  shows "MatchHandler_ctor features matcher_names =
     Inr \<lparr>referDets = map (\<lambda>n. projr (Detector_Factory n)) features,
          inputDets = map (\<lambda>n. projr (Detector_Factory n)) features,
          matchers = map (\<lambda>i. projr (Matcher_Factory (matcher_names ! i) (features ! i)))
                       [0..<length matcher_names],
          acceptRatio = Fin (1 / 2)\<rparr>"
proof -
  let ?g = "\<lambda>n. projr (Detector_Factory n)"
  let ?k = "\<lambda>i. projr (Matcher_Factory (matcher_names ! i) (features ! i))"
  have dets: "foreach_push Detector_Factory features [] = Inr ([] @ map ?g features)"
  proof (rule foreach_push_ok)
    fix x assume "x \<in> set features"
    with fs show "Detector_Factory x = Inr (?g x)"
      by (intro Detector_Factory_projr) auto
  qed
  have loop: "for_loop 0 (length matcher_names)
      (\<lambda>i ms. bind (vec_at matcher_names i) (\<lambda>mn.
               bind (vec_at (map ?g features) i) (\<lambda>d.
               bind (Matcher_Factory mn (r_name (Detector_getResult d))) (\<lambda>m.
               Inr (ms @ [m]))))) [] =
     Inr ([] @ map ?k [0..<0 + length matcher_names])"
  proof (rule for_loop_push)
    fix j and s :: "Matcher list"
    assume "0 \<le> j" and j: "j < 0 + length matcher_names"
    then have jf: "j < length features" using len by simp
    have "features ! j \<in> set features" using jf by simp
    with fs have nm: "name (?g (features ! j)) = features ! j"
      by (intro name_projr_Detector_Factory) auto
    have "matcher_names ! j \<in> set matcher_names" using j by simp
    with ms have "Matcher_Factory (matcher_names ! j) (features ! j) = Inr (?k j)"
      by (intro Matcher_Factory_projr) auto
    then obtain mt where
      mt: "Matcher_Factory (matcher_names ! j) (features ! j) = Inr mt" ..
    show "bind (vec_at matcher_names j) (\<lambda>mn.
               bind (vec_at (map ?g features) j) (\<lambda>d.
               bind (Matcher_Factory mn (r_name (Detector_getResult d))) (\<lambda>m.
               Inr (s @ [m])))) = Inr (s @ [?k j])"
      using j jf nm by (simp add: vec_at_def Detector_getResult_def mt)
  qed
  show ?thesis
    unfolding MatchHandler_ctor_def
    apply (simp only: len simp_thms if_False dets bind_Inr append_Nil)
    apply (simp only: loop bind_Inr append_Nil add_0)
    done
qed

lemma MatchHandler_ctor_hpp_ok:
  assumes len: "length features = length matcher_names"
    and fs: "set features \<subseteq> {''sift'', ''surf'', ''orb'', ''kaze'', ''brisk''}"
    and ms: "set matcher_names \<subseteq> {''flann'', ''bf''}"
  shows "MatchHandler_ctor_hpp features matcher_names =
     Inr \<lparr>referDets = map (\<lambda>n. projr (Detector_Factory_hpp n)) features,
          inputDets = map (\<lambda>n. projr (Detector_Factory_hpp n)) features,
          matchers = map (\<lambda>n. projr (Matcher_Factory_hpp n)) matcher_names,
          acceptRatio = Fin (1 / 2)\<rparr>"
proof -
  let ?g = "\<lambda>n. projr (Detector_Factory_hpp n)"
  let ?k = "\<lambda>n. projr (Matcher_Factory_hpp n)"
  have dets: "foreach_push Detector_Factory_hpp features [] = Inr ([] @ map ?g features)"
  proof (rule foreach_push_ok)
    fix x assume "x \<in> set features"
    with fs show "Detector_Factory_hpp x = Inr (?g x)"
      unfolding Detector_Factory_hpp_eq by (intro Detector_Factory_projr) auto
  qed
  have mats: "foreach_push Matcher_Factory_hpp matcher_names [] = Inr ([] @ map ?k matcher_names)"
  proof (rule foreach_push_ok)
    fix x assume "x \<in> set matcher_names"
    with ms show "Matcher_Factory_hpp x = Inr (?k x)"
      by (intro Matcher_Factory_hpp_projr) auto
  qed
  show ?thesis
    unfolding MatchHandler_ctor_hpp_def
    by (simp only: len simp_thms if_False dets mats bind_Inr append_Nil)
qed

lemma MatchHandler_ctor_acceptRatio:
  assumes "MatchHandler_ctor features matcher_names = Inr h"
  shows "acceptRatio h = Fin (1 / 2)"
proof -
  from assms have "\<exists>rds ids ms.
      h = \<lparr>referDets = rds, inputDets = ids, matchers = ms, acceptRatio = Fin (1 / 2)\<rparr>"
    unfolding MatchHandler_ctor_def by (simp split: if_splits add: bind_eq_Inr) blast
  then show ?thesis by auto
qed

lemma MatchHandler_ctor_hpp_acceptRatio:
  assumes "MatchHandler_ctor_hpp features matcher_names = Inr h"
  shows "acceptRatio h = Fin (1 / 2)"
proof -
  from assms have "\<exists>rds ids ms.
      h = \<lparr>referDets = rds, inputDets = ids, matchers = ms, acceptRatio = Fin (1 / 2)\<rparr>"
    unfolding MatchHandler_ctor_hpp_def by (simp split: if_splits add: bind_eq_Inr) blast
  then show ?thesis by auto
qed

lemma MatchDescriptors_half:
  assumes "off_end_returns cv"
    and "sort_contract (std_sort cv) (match cv (matcher m) inputDesc referDesc)"
    and "length (match cv (matcher m) inputDesc referDesc) < 2 ^ 24"
  shows "MatchDescriptors cv (Fin (1 / 2)) referDesc inputDesc m =
     Inr (m\<lparr>matches := take (length (match cv (matcher m) inputDesc referDesc) div 2)
                            (std_sort cv (match cv (matcher m) inputDesc referDesc))\<rparr>)"
proof -
  let ?n = "length (match cv (matcher m) inputDesc referDesc)"
  have "f32_round (of_nat ?n * (1 / 2)) = of_nat ?n / 2"
    using assms(3) by (rule f32_round_half)
  moreover have "nat \<lfloor>(of_nat ?n :: rat) / 2\<rfloor> = ?n div 2"
    using floor_divide_of_nat_eq [of ?n 2, where ?'a = rat] by simp
  ultimately have "nat \<lfloor>f32_round (of_nat ?n * (1 / 2))\<rfloor> = ?n div 2" by (simp only:)
  with MatchDescriptors_result [OF assms(1,2) _ _ assms(3), of "1 / 2"] show ?thesis by simp
qed


lemma MatchDescriptors_keeps_ids:
  "MatchDescriptors cv ratio r d m = Inr m' \<Longrightarrow> mname m' = mname m \<and> matcher m' = matcher m"
  by (auto simp: MatchDescriptors_def Let_def split: if_splits option.splits)

lemma MatchDescriptors_hpp_keeps:
  "MatchDescriptors_hpp cv ratio r d m = Inr m' \<Longrightarrow> m' = m"
  by (auto simp: MatchDescriptors_hpp_def Let_def split: if_splits option.splits)

lemma match_step_Inr:
  assumes "match_step md i h = Inr h'"
  shows "\<exists>m'. i < length (matchers h) \<and> i < length (referDets h) \<and> i < length (inputDets h) \<and>
     md (r_descriptors (Detector_getResult (referDets h ! i)))
        (r_descriptors (Detector_getResult (inputDets h ! i))) (matchers h ! i) = Inr m' \<and>
     h' = h\<lparr>matchers := (matchers h)[i := m']\<rparr>"
  using assms unfolding match_step_def bind_eq_Inr vec_at_def
  by (auto split: if_splits)

lemma match_step_pipelines:
  assumes md: "\<And>r d m m'. md r d m = Inr m' \<Longrightarrow> mname m' = mname m \<and> matcher m' = matcher m"
    and step: "match_step md i h = Inr h'"
  shows "(pipelines h', sizes h') = (pipelines h, sizes h)"
proof -
  from match_step_Inr [OF step] obtain m' where
    i: "i < length (matchers h)" and
    m': "md (r_descriptors (Detector_getResult (referDets h ! i)))
        (r_descriptors (Detector_getResult (inputDets h ! i))) (matchers h ! i) = Inr m'" and
    h': "h' = h\<lparr>matchers := (matchers h)[i := m']\<rparr>"
    by blast
  from md [OF m'] have same: "(mname m', matcher m') = (mname (matchers h ! i), matcher (matchers h ! i))"
    by simp
  have "map (\<lambda>m. (mname m, matcher m)) ((matchers h)[i := m']) =
        (map (\<lambda>m. (mname m, matcher m)) (matchers h))[i := (mname m', matcher m')]"
    by (rule map_update)
  also have "\<dots> = map (\<lambda>m. (mname m, matcher m)) (matchers h)"
    unfolding same using i by (simp add: list_update_same_conv)
  finally show ?thesis by (simp add: pipelines_def sizes_def h')
qed

lemma DetectAndCompute_ids:
  "name (DetectAndCompute cv img d) = name d \<and> feature (DetectAndCompute cv img d) = feature d"
  by (simp add: DetectAndCompute_def split: prod.splits)

lemma MatchImage_gen_pipelines:
  assumes md: "\<And>r d m m'. md r d m = Inr m' \<Longrightarrow> mname m' = mname m \<and> matcher m' = matcher m"
    and run: "for_loop 0 (length (matchers h))
        (match_step md) (h\<lparr>inputDets := map (DetectAndCompute cv img) (inputDets h)\<rparr>) = Inr h'"
  shows "pipelines h' = pipelines h \<and> sizes h' = sizes h"
proof -
  let ?h1 = "h\<lparr>inputDets := map (DetectAndCompute cv img) (inputDets h)\<rparr>"
  have "(pipelines h', sizes h') = (pipelines ?h1, sizes ?h1)"
    using run by (rule for_loop_preserves [rotated]) (rule match_step_pipelines [OF md])
  moreover have "pipelines ?h1 = pipelines h" "sizes ?h1 = sizes h"
    by (simp_all add: pipelines_def sizes_def DetectAndCompute_ids comp_def)
  ultimately show ?thesis by simp
qed

lemma MatchImage_pipelines:
  "MatchImage cv ratio img h = Inr h' \<Longrightarrow> pipelines h' = pipelines h \<and> sizes h' = sizes h"
  unfolding MatchImage_def Let_def
  by (rule MatchImage_gen_pipelines [where md = "MatchDescriptors cv ratio"])
     (simp_all add: MatchDescriptors_keeps_ids)

lemma MatchImage_hpp_pipelines:
  "MatchImage_hpp cv ratio img h = Inr h' \<Longrightarrow> pipelines h' = pipelines h \<and> sizes h' = sizes h"
  unfolding MatchImage_hpp_def Let_def
  by (rule MatchImage_gen_pipelines [where md = "MatchDescriptors_hpp cv ratio"])
     (auto dest: MatchDescriptors_hpp_keeps)

lemma SetRefImage_pipelines:
  "pipelines (SetRefImage cv img h) = pipelines h \<and> sizes (SetRefImage cv img h) = sizes h"
  by (simp add: SetRefImage_def pipelines_def sizes_def DetectAndCompute_ids comp_def)

lemma ChangeAcceptRatio_pipelines:
  "pipelines (fst (ChangeAcceptRatio c h)) = pipelines h \<and>
   sizes (fst (ChangeAcceptRatio c h)) = sizes h"
  by (simp add: ChangeAcceptRatio_def pipelines_def sizes_def Let_def)

text \<open>The handler after the matching loop has treated the pipelines below \<open>k\<close>.\<close>

lemma match_loop_run:
  assumes ok: "\<And>j. j < length (matchers h) \<Longrightarrow>
      j < length (referDets h) \<and> j < length (inputDets h) \<and>
      md (r_descriptors (Detector_getResult (referDets h ! j)))
         (r_descriptors (Detector_getResult (inputDets h ! j))) (matchers h ! j) = Inr (g j)"
    and kn: "k + n \<le> length (matchers h)"
  shows "for_loop k n (match_step md)
      (h\<lparr>matchers := map (\<lambda>j. if j < k then g j else matchers h ! j) [0..<length (matchers h)]\<rparr>) =
     Inr (h\<lparr>matchers := map (\<lambda>j. if j < k + n then g j else matchers h ! j)
                              [0..<length (matchers h)]\<rparr>)"
  using kn
proof (induction n arbitrary: k)
  case 0
  then show ?case by simp
next
  case (Suc n)
  let ?len = "length (matchers h)"
  let ?upd = "\<lambda>k. map (\<lambda>j. if j < k then g j else matchers h ! j) [0..<?len]"
  from Suc.prems have k: "k < ?len" by simp
  from ok [OF k] have
    r: "k < length (referDets h)" and d: "k < length (inputDets h)" and
    m: "md (r_descriptors (Detector_getResult (referDets h ! k)))
         (r_descriptors (Detector_getResult (inputDets h ! k))) (matchers h ! k) = Inr (g k)"
    by simp_all
  have nth: "?upd k ! k = matchers h ! k" using k by simp
  have upd: "(?upd k)[k := g k] = ?upd (Suc k)"
    by (rule nth_equalityI) (auto simp: nth_list_update less_Suc_eq)
  have step: "match_step md k (h\<lparr>matchers := ?upd k\<rparr>) = Inr (h\<lparr>matchers := ?upd (Suc k)\<rparr>)"
    using k r d by (simp add: match_step_def vec_at_def nth m upd del: upt_Suc)
  have "for_loop (Suc k) n (match_step md) (h\<lparr>matchers := ?upd (Suc k)\<rparr>) =
        Inr (h\<lparr>matchers := ?upd (Suc k + n)\<rparr>)"
    by (rule Suc.IH) (use Suc.prems in simp)
  then show ?case by (simp only: for_loop.simps step bind_Inr add_Suc_right add_Suc)
qed

lemma match_loop_all:
  assumes "\<And>j. j < length (matchers h) \<Longrightarrow>
      j < length (referDets h) \<and> j < length (inputDets h) \<and>
      md (r_descriptors (Detector_getResult (referDets h ! j)))
         (r_descriptors (Detector_getResult (inputDets h ! j))) (matchers h ! j) = Inr (g j)"
  shows "for_loop 0 (length (matchers h)) (match_step md) h =
     Inr (h\<lparr>matchers := map g [0..<length (matchers h)]\<rparr>)"
proof -
  have a: "h\<lparr>matchers := map (\<lambda>j. if j < 0 then g j else matchers h ! j)
             [0..<length (matchers h)]\<rparr> = h"
    by (simp add: map_nth)
  have b: "map (\<lambda>j. if j < 0 + length (matchers h) then g j else matchers h ! j)
             [0..<length (matchers h)] = map g [0..<length (matchers h)]"
    by simp
  from match_loop_run [of h md g 0 "length (matchers h)", OF assms]
  show ?thesis unfolding a b by simp
qed

lemma DetectAndCompute_descriptors:
  "r_descriptors (Detector_getResult (DetectAndCompute cv img d)) =
     snd (detectAndCompute cv (feature d) img)"
  by (simp add: Detector_getResult_def DetectAndCompute_def split: prod.splits)

lemma DetectAndCompute_twice:
  "DetectAndCompute cv b (DetectAndCompute cv a d) = DetectAndCompute cv b d"
  by (simp add: DetectAndCompute_def split: prod.splits)

lemma MatchImage_result:
  assumes ret: "off_end_returns cv"
    and paired: "length (referDets h) = length (matchers h)"
      "length (inputDets h) = length (matchers h)"
    and sc: "\<And>xs. sort_contract (std_sort cv) xs"
    and small: "\<And>j. j < length (matchers h) \<Longrightarrow>
      length (match cv (matcher (matchers h ! j))
        (snd (detectAndCompute cv (feature (inputDets h ! j)) img))
        (descriptors (referDets h ! j))) < 2 ^ 24"
    and ratio: "0 \<le> ratio" "ratio \<le> 1"
  shows "MatchImage cv (Fin ratio) img h =
     Inr (h\<lparr>inputDets := map (DetectAndCompute cv img) (inputDets h),
            matchers := map (\<lambda>j. projr (MatchDescriptors cv (Fin ratio)
                (descriptors (referDets h ! j))
                (snd (detectAndCompute cv (feature (inputDets h ! j)) img))
                (matchers h ! j))) [0..<length (matchers h)]\<rparr>)"
proof -
  let ?h1 = "h\<lparr>inputDets := map (DetectAndCompute cv img) (inputDets h)\<rparr>"
  let ?g = "\<lambda>j. projr (MatchDescriptors cv (Fin ratio)
                (descriptors (referDets h ! j))
                (snd (detectAndCompute cv (feature (inputDets h ! j)) img))
                (matchers h ! j))"
  have "for_loop 0 (length (matchers ?h1)) (match_step (MatchDescriptors cv (Fin ratio))) ?h1 =
     Inr (?h1\<lparr>matchers := map ?g [0..<length (matchers ?h1)]\<rparr>)"
  proof (rule match_loop_all)
    fix j assume "j < length (matchers ?h1)"
    then have j: "j < length (matchers h)" by simp
    have md: "MatchDescriptors cv (Fin ratio) (descriptors (referDets h ! j))
                (snd (detectAndCompute cv (feature (inputDets h ! j)) img))
                (matchers h ! j) = Inr (?g j)"
      by (simp add: MatchDescriptors_result [OF ret sc ratio small [OF j]])
    show "j < length (referDets ?h1) \<and> j < length (inputDets ?h1) \<and>
      MatchDescriptors cv (Fin ratio) (r_descriptors (Detector_getResult (referDets ?h1 ! j)))
         (r_descriptors (Detector_getResult (inputDets ?h1 ! j))) (matchers ?h1 ! j) = Inr (?g j)"
      using j paired md
      by (simp add: DetectAndCompute_descriptors) (simp add: Detector_getResult_def)
  qed
  then show ?thesis by (simp add: MatchImage_def Let_def)
qed

lemma MatchImage_hpp_result:
  assumes ret: "off_end_returns cv"
    and paired: "length (referDets h) = length (matchers h)"
      "length (inputDets h) = length (matchers h)"
    and sc: "\<And>xs. sort_contract (std_sort cv) xs"
    and small: "\<And>j. j < length (matchers h) \<Longrightarrow>
      length (match cv (matcher (matchers h ! j))
        (snd (detectAndCompute cv (feature (inputDets h ! j)) img))
        (descriptors (referDets h ! j))) < 2 ^ 24"
    and ratio: "0 \<le> ratio" "ratio \<le> 1"
  shows "MatchImage_hpp cv (Fin ratio) img h =
     Inr (h\<lparr>inputDets := map (DetectAndCompute cv img) (inputDets h)\<rparr>)"
proof -
  let ?h1 = "h\<lparr>inputDets := map (DetectAndCompute cv img) (inputDets h)\<rparr>"
  have "for_loop 0 (length (matchers ?h1)) (match_step (MatchDescriptors_hpp cv (Fin ratio))) ?h1 =
     Inr (?h1\<lparr>matchers := map (\<lambda>j. matchers h ! j) [0..<length (matchers ?h1)]\<rparr>)"
  proof (rule match_loop_all)
    fix j assume "j < length (matchers ?h1)"
    then have j: "j < length (matchers h)" by simp
    have md: "MatchDescriptors_hpp cv (Fin ratio) (descriptors (referDets h ! j))
                (snd (detectAndCompute cv (feature (inputDets h ! j)) img))
                (matchers h ! j) = Inr (matchers h ! j)"
      by (rule MatchDescriptors_hpp_result [OF ret sc ratio small [OF j]])
    show "j < length (referDets ?h1) \<and> j < length (inputDets ?h1) \<and>
      MatchDescriptors_hpp cv (Fin ratio) (r_descriptors (Detector_getResult (referDets ?h1 ! j)))
         (r_descriptors (Detector_getResult (inputDets ?h1 ! j))) (matchers ?h1 ! j) =
       Inr (matchers h ! j)"
      using j paired md
      by (simp add: DetectAndCompute_descriptors) (simp add: Detector_getResult_def)
  qed
  then show ?thesis by (simp add: MatchImage_hpp_def Let_def map_nth)
qed

lemma MatchDescriptors_overwrites:
  "MatchDescriptors cv ratio r d (m\<lparr>matches := old\<rparr>) = MatchDescriptors cv ratio r d m"
  by (simp add: MatchDescriptors_def Let_def split: option.splits)

lemma MatchDescriptors_projr_matcher:
  assumes "off_end_returns cv"
    and "sort_contract (std_sort cv) (match cv (matcher m) d r)"
    and "0 \<le> ratio" "ratio \<le> 1" "length (match cv (matcher m) d r) < 2 ^ 24"
  shows "\<exists>ms. projr (MatchDescriptors cv (Fin ratio) r d m) = m\<lparr>matches := ms\<rparr>"
  by (simp add: MatchDescriptors_result [OF assms]) blast

lemma MatchImage_last_wins:
  assumes ret: "off_end_returns cv"
    and paired: "length (referDets h) = length (matchers h)"
      "length (inputDets h) = length (matchers h)"
    and sc: "\<And>xs. sort_contract (std_sort cv) xs"
    and smallA: "\<And>j. j < length (matchers h) \<Longrightarrow>
      length (match cv (matcher (matchers h ! j))
        (snd (detectAndCompute cv (feature (inputDets h ! j)) imageA))
        (descriptors (referDets h ! j))) < 2 ^ 24"
    and smallB: "\<And>j. j < length (matchers h) \<Longrightarrow>
      length (match cv (matcher (matchers h ! j))
        (snd (detectAndCompute cv (feature (inputDets h ! j)) imageB))
        (descriptors (referDets h ! j))) < 2 ^ 24"
    and ratio: "0 \<le> ratio" "ratio \<le> 1"
  shows "\<exists>hA hB. MatchImage cv (Fin ratio) imageA h = Inr hA \<and>
      MatchImage cv (Fin ratio) imageB hA = Inr hB \<and>
      MatchImage cv (Fin ratio) imageB h = Inr hB"
proof -
  let ?F = "\<lambda>img h. h\<lparr>inputDets := map (DetectAndCompute cv img) (inputDets h),
            matchers := map (\<lambda>j. projr (MatchDescriptors cv (Fin ratio)
                (descriptors (referDets h ! j))
                (snd (detectAndCompute cv (feature (inputDets h ! j)) img))
                (matchers h ! j))) [0..<length (matchers h)]\<rparr>"
  have A: "MatchImage cv (Fin ratio) imageA h = Inr (?F imageA h)"
    by (rule MatchImage_result [OF ret paired sc smallA ratio])
  have B: "MatchImage cv (Fin ratio) imageB h = Inr (?F imageB h)"
    by (rule MatchImage_result [OF ret paired sc smallB ratio])
  have old: "\<exists>ms. projr (MatchDescriptors cv (Fin ratio) (descriptors (referDets h ! j))
                (snd (detectAndCompute cv (feature (inputDets h ! j)) imageA))
                (matchers h ! j)) = (matchers h ! j)\<lparr>matches := ms\<rparr>"
    if "j < length (matchers h)" for j
    by (rule MatchDescriptors_projr_matcher [OF ret sc ratio smallA [OF that]])
  have pA: "length (referDets (?F imageA h)) = length (matchers (?F imageA h))"
      "length (inputDets (?F imageA h)) = length (matchers (?F imageA h))"
    using paired by simp_all
  have sAB: "length (match cv (matcher (matchers (?F imageA h) ! j))
        (snd (detectAndCompute cv (feature (inputDets (?F imageA h) ! j)) imageB))
        (descriptors (referDets (?F imageA h) ! j))) < 2 ^ 24"
    if "j < length (matchers (?F imageA h))" for j
  proof -
    from that have j: "j < length (matchers h)" by simp
    from old [OF j] obtain ms where
      "projr (MatchDescriptors cv (Fin ratio) (descriptors (referDets h ! j))
                (snd (detectAndCompute cv (feature (inputDets h ! j)) imageA))
                (matchers h ! j)) = (matchers h ! j)\<lparr>matches := ms\<rparr>" ..
    then show ?thesis
      using j paired smallB [OF j] by (simp add: DetectAndCompute_ids)
  qed
  have AB: "MatchImage cv (Fin ratio) imageB (?F imageA h) = Inr (?F imageB (?F imageA h))"
    by (rule MatchImage_result [OF ret pA sc sAB ratio])
  have "?F imageB (?F imageA h) = ?F imageB h"
  proof -
    have "projr (MatchDescriptors cv (Fin ratio) (descriptors (referDets h ! j))
             (snd (detectAndCompute cv
                (feature (DetectAndCompute cv imageA (inputDets h ! j))) imageB))
             (projr (MatchDescriptors cv (Fin ratio) (descriptors (referDets h ! j))
                (snd (detectAndCompute cv (feature (inputDets h ! j)) imageA))
                (matchers h ! j)))) =
          projr (MatchDescriptors cv (Fin ratio) (descriptors (referDets h ! j))
             (snd (detectAndCompute cv (feature (inputDets h ! j)) imageB))
             (matchers h ! j))" if "j < length (matchers h)" for j
    proof -
      from old [OF that] obtain ms where
        "projr (MatchDescriptors cv (Fin ratio) (descriptors (referDets h ! j))
                (snd (detectAndCompute cv (feature (inputDets h ! j)) imageA))
                (matchers h ! j)) = (matchers h ! j)\<lparr>matches := ms\<rparr>" ..
      then show ?thesis
        by (simp add: MatchDescriptors_overwrites DetectAndCompute_ids)
    qed
    then show ?thesis
      using paired by (simp add: DetectAndCompute_twice comp_def)
  qed
  with A B AB show ?thesis by simp
qed


section \<open>Runs on the test double\<close>

lemma demo_small:
  "length (match demo_cv mt (snd (detectAndCompute demo_cv f (column_image r))) t) < 2 ^ 24
     \<longleftrightarrow> r < 2 ^ 24"
  by (simp add: demo_detect_def column_image_def)


lemma ctor_sift_bf:
  "MatchHandler_ctor [''sift''] [''bf''] =
     Inr \<lparr>referDets = [Detector_ctor ''sift'' SIFT_create],
          inputDets = [Detector_ctor ''sift'' SIFT_create],
          matchers = [Matcher_ctor ''bf'' (BFMatcher_create NORM_L1)],
          acceptRatio = Fin (1 / 2)\<rparr>"
  by (subst MatchHandler_ctor_ok) (simp_all add: Detector_Factory_def Matcher_Factory_def)

lemma ctor_hpp_sift_bf:
  "MatchHandler_ctor_hpp [''sift''] [''bf''] =
     Inr \<lparr>referDets = [Detector_ctor ''sift'' SIFT_create],
          inputDets = [Detector_ctor ''sift'' SIFT_create],
          matchers = [Matcher_ctor ''bf'' (BFMatcher_create NORM_L1)],
          acceptRatio = Fin (1 / 2)\<rparr>"
  by (subst MatchHandler_ctor_hpp_ok)
     (simp_all add: Detector_Factory_hpp_def Matcher_Factory_hpp_def)


lemma ctor_hpp_sift_orb:
  "MatchHandler_ctor_hpp [''sift'', ''orb''] [''bf'', ''bf''] =
     Inr \<lparr>referDets = [Detector_ctor ''sift'' SIFT_create, Detector_ctor ''orb'' ORB_create],
          inputDets = [Detector_ctor ''sift'' SIFT_create, Detector_ctor ''orb'' ORB_create],
          matchers = [Matcher_ctor ''bf'' (BFMatcher_create NORM_L1),
                      Matcher_ctor ''bf'' (BFMatcher_create NORM_L1)],
          acceptRatio = Fin (1 / 2)\<rparr>"
  by (subst MatchHandler_ctor_hpp_ok)
     (simp_all add: Detector_Factory_hpp_def Matcher_Factory_hpp_def)

lemma MatchImage_hpp_demo:
  assumes "length (referDets h) = length (matchers h)"
    "length (inputDets h) = length (matchers h)" "r < 2 ^ 24"
  shows "MatchImage_hpp demo_cv (Fin (1 / 2)) (column_image r) h =
     Inr (h\<lparr>inputDets := map (DetectAndCompute demo_cv (column_image r)) (inputDets h)\<rparr>)"
proof (rule MatchImage_hpp_result [OF _ assms(1,2)])
  show "off_end_returns demo_cv" by simp
  show "sort_contract (std_sort demo_cv) xs" for xs by (simp add: sort_contract_sort_key)
  show "length (match demo_cv (matcher (matchers h ! j))
        (snd (detectAndCompute demo_cv (feature (inputDets h ! j)) (column_image r)))
        (descriptors (referDets h ! j))) < 2 ^ 24" for j
    unfolding demo_small by (rule assms(3))
qed simp_all


lemma MatchDescriptors_demo_half:
  assumes "r < 2 ^ 24"
  shows "MatchDescriptors demo_cv (Fin (1 / 2)) t (column_image r) m =
     Inr (m\<lparr>matches := take (r div 2)
            (sort_key distance (demo_match (matcher m) (column_image r) t))\<rparr>)"
proof -
  have sc: "sort_contract (std_sort demo_cv) (match demo_cv (matcher m) (column_image r) t)"
    by (simp add: sort_contract_sort_key)
  have len: "length (match demo_cv (matcher m) (column_image r) t) = r"
    by (simp add: column_image_def)
  have lt: "length (match demo_cv (matcher m) (column_image r) t) < 2 ^ 24"
    unfolding len by (rule assms)
  show ?thesis
    using MatchDescriptors_half [OF _ sc lt] unfolding len by simp
qed

lemma demo_detect_column: "snd (demo_detect f (column_image r)) = column_image r"
  by (simp add: demo_detect_def column_image_def)

lemma MatchImage_demo:
  assumes "length (referDets h) = length (matchers h)"
    "length (inputDets h) = length (matchers h)" "r < 2 ^ 24"
  shows "MatchImage demo_cv (Fin (1 / 2)) (column_image r) h =
     Inr (h\<lparr>inputDets := map (DetectAndCompute demo_cv (column_image r)) (inputDets h),
            matchers := map (\<lambda>j. (matchers h ! j)\<lparr>matches := take (r div 2)
                (sort_key distance (demo_match (matcher (matchers h ! j)) (column_image r)
                   (descriptors (referDets h ! j))))\<rparr>) [0..<length (matchers h)]\<rparr>)"
proof -
  have sc: "sort_contract (std_sort demo_cv) xs" for xs by (simp add: sort_contract_sort_key)
  have small: "length (match demo_cv (matcher (matchers h ! j))
        (snd (detectAndCompute demo_cv (feature (inputDets h ! j)) (column_image r)))
        (descriptors (referDets h ! j))) < 2 ^ 24" for j
    unfolding demo_small by (rule assms(3))
  have r: "(0::rat) \<le> 1 / 2" "(1::rat) / 2 \<le> 1" by simp_all
  have ret: "off_end_returns demo_cv" by simp
  show ?thesis
    unfolding MatchImage_result [OF ret assms(1,2) sc small r]
    by (simp add: demo_detect_column MatchDescriptors_demo_half [OF assms(3)])
qed

lemma sorted_demo_match_6:
  "take 3 (sort_key distance (demo_match mt (column_image 6) t)) =
     [\<lparr>queryIdx = 5, trainIdx = 0, imgIdx = 0, distance = 1\<rparr>,
      \<lparr>queryIdx = 4, trainIdx = 0, imgIdx = 0, distance = 2\<rparr>,
      \<lparr>queryIdx = 3, trainIdx = 0, imgIdx = 0, distance = 3\<rparr>]"
  by (simp add: demo_match_def column_image_def upt_conv_Cons)



section \<open>The metric of a matcher\<close>

lemma ctor_hpp_orb_orb:
  "MatchHandler_ctor_hpp [''orb'', ''orb''] [''bf'', ''flann''] =
     Inr \<lparr>referDets = [Detector_ctor ''orb'' ORB_create, Detector_ctor ''orb'' ORB_create],
          inputDets = [Detector_ctor ''orb'' ORB_create, Detector_ctor ''orb'' ORB_create],
          matchers = [Matcher_ctor ''bf'' (BFMatcher_create NORM_L1),
                      Matcher_ctor ''flann'' FlannBasedMatcher_create],
          acceptRatio = Fin (1 / 2)\<rparr>"
  by (subst MatchHandler_ctor_hpp_ok)
     (simp_all add: Detector_Factory_hpp_def Matcher_Factory_hpp_def)

lemma ctor_orb_orb:
  "MatchHandler_ctor [''orb'', ''orb''] [''bf'', ''flann''] =
     Inr \<lparr>referDets = [Detector_ctor ''orb'' ORB_create, Detector_ctor ''orb'' ORB_create],
          inputDets = [Detector_ctor ''orb'' ORB_create, Detector_ctor ''orb'' ORB_create],
          matchers = [Matcher_ctor ''bf'' (BFMatcher_create NORM_HAMMING),
                      Matcher_ctor ''flann'' (FlannBasedMatcher_new (LshIndexParams 12 20 2))],
          acceptRatio = Fin (1 / 2)\<rparr>"
  by (subst MatchHandler_ctor_ok)
     (simp_all add: Detector_Factory_def Matcher_Factory_def upt_conv_Cons)

text \<open>
  C6. The claim fails on \<open>feature.hpp\<close>. Its \<open>Matcher::Factory\<close> takes the matcher name
  alone, and the branches for \<open>orb\<close> are commented out: a handler with two \<open>orb\<close>
  pipelines, one matched by \<open>bf\<close> and one by \<open>flann\<close>, holds a brute-force matcher with
  the L1 norm and a FLANN matcher from the plain \<open>create()\<close>. The second source file
  builds, for the same names, a brute-force matcher with the Hamming norm and a FLANN matcher
  with LSH index parameters; its two-argument factory selects by the descriptor name as the
  claim says, for every descriptor name.
\<close>

theorem Matcher_Factory_hpp_ignores_descriptor:
  "bind (MatchHandler_ctor_hpp [''orb'', ''orb''] [''bf'', ''flann''])
     (\<lambda>h. Inr (map matcher (matchers h))) =
     Inr [BFMatcher_create NORM_L1, FlannBasedMatcher_create] \<and>
   bind (MatchHandler_ctor [''orb'', ''orb''] [''bf'', ''flann''])
     (\<lambda>h. Inr (map matcher (matchers h))) =
     Inr [BFMatcher_create NORM_HAMMING, FlannBasedMatcher_new (LshIndexParams 12 20 2)] \<and>
   Matcher_Factory_hpp ''bf'' =
     Inr \<lparr>matcher = BFMatcher_create NORM_L1, mname = ''bf'', matches = [], minMathces = 10\<rparr> \<and>
   Matcher_Factory_hpp ''flann'' =
     Inr \<lparr>matcher = FlannBasedMatcher_create, mname = ''flann'', matches = [],
          minMathces = 10\<rparr> \<and>
   Matcher_Factory ''bf'' descName =
     Inr \<lparr>matcher = BFMatcher_create (if descName = ''orb'' then NORM_HAMMING else NORM_L1),
          mname = ''bf'', matches = [], minMathces = 10\<rparr> \<and>
   Matcher_Factory ''flann'' descName =
     Inr \<lparr>matcher = (if descName = ''orb'' then FlannBasedMatcher_new (LshIndexParams 12 20 2)
                      else FlannBasedMatcher_create),
          mname = ''flann'', matches = [], minMathces = 10\<rparr>"
proof -
  have a: "bind (MatchHandler_ctor_hpp [''orb'', ''orb''] [''bf'', ''flann''])
     (\<lambda>h. Inr (map matcher (matchers h))) =
     Inr [BFMatcher_create NORM_L1, FlannBasedMatcher_create]"
    unfolding ctor_hpp_orb_orb by (simp add: Matcher_ctor_def)
  have b: "bind (MatchHandler_ctor [''orb'', ''orb''] [''bf'', ''flann''])
     (\<lambda>h. Inr (map matcher (matchers h))) =
     Inr [BFMatcher_create NORM_HAMMING, FlannBasedMatcher_new (LshIndexParams 12 20 2)]"
    unfolding ctor_orb_orb by (simp add: Matcher_ctor_def)
  have c: "Matcher_Factory_hpp ''bf'' =
     Inr \<lparr>matcher = BFMatcher_create NORM_L1, mname = ''bf'', matches = [], minMathces = 10\<rparr>"
    "Matcher_Factory_hpp ''flann'' =
     Inr \<lparr>matcher = FlannBasedMatcher_create, mname = ''flann'', matches = [],
          minMathces = 10\<rparr>"
    by (simp_all add: Matcher_Factory_hpp_def Matcher_ctor_def)
  have d: "Matcher_Factory ''bf'' descName =
     Inr \<lparr>matcher = BFMatcher_create (if descName = ''orb'' then NORM_HAMMING else NORM_L1),
          mname = ''bf'', matches = [], minMathces = 10\<rparr>"
    "Matcher_Factory ''flann'' descName =
     Inr \<lparr>matcher = (if descName = ''orb'' then FlannBasedMatcher_new (LshIndexParams 12 20 2)
                      else FlannBasedMatcher_create),
          mname = ''flann'', matches = [], minMathces = 10\<rparr>"
    by (simp_all add: Matcher_Factory_def Matcher_ctor_def)
  from a b c d show ?thesis by (intro conjI)
qed


section \<open>Runs of a client\<close>

lemma bind_assoc: "bind (bind r f) g = bind r (\<lambda>x. bind (f x) g)"
  by (cases r) simp_all




lemma run_invariant:
  assumes inv: "\<And>c q q'. c \<in> set cs \<Longrightarrow> I q \<Longrightarrow> step src cv c q = Inr q' \<Longrightarrow> I q'"
    and start: "I p" and run: "run src cv cs p = Inr p'"
  shows "I p'"
  using assms
proof (induction cs arbitrary: p)
  case Nil
  then show ?case by simp
next
  case (Cons c cs)
  from Cons.prems(3) obtain q where q: "step src cv c p = Inr q" "run src cv cs q = Inr p'"
    by (auto simp: bind_eq_Inr)
  have Iq: "I q" by (rule Cons.prems(1) [OF _ Cons.prems(2) q(1)]) simp
  show ?case
  proof (rule Cons.IH [OF _ Iq q(2)])
    fix c' q1 q2
    assume "c' \<in> set cs" "I q1" "step src cv c' q1 = Inr q2"
    then show "I q2" using Cons.prems(1) [of c' q1 q2] by simp
  qed
qed

lemma match_step_acceptRatio: "match_step md i h = Inr h' \<Longrightarrow> acceptRatio h' = acceptRatio h"
  by (auto dest!: match_step_Inr)

lemma match_loop_acceptRatio:
  assumes "for_loop i n (match_step md) h = Inr h'"
  shows "acceptRatio h' = acceptRatio h"
  using assms by (rule for_loop_preserves [rotated]) (rule match_step_acceptRatio)

lemma MatchImage_of_acceptRatio:
  assumes "MatchImage_of src cv ratio img h = Inr h'"
  shows "acceptRatio h' = acceptRatio h"
proof (cases src)
  case feature_hpp
  with assms have "for_loop 0 (length (matchers h)) (match_step (MatchDescriptors_hpp cv ratio))
      (h\<lparr>inputDets := map (DetectAndCompute cv img) (inputDets h)\<rparr>) = Inr h'"
    by (simp add: MatchImage_of_def MatchImage_hpp_def Let_def)
  from match_loop_acceptRatio [OF this] show ?thesis by simp
next
  case part_000
  with assms have "for_loop 0 (length (matchers h)) (match_step (MatchDescriptors cv ratio))
      (h\<lparr>inputDets := map (DetectAndCompute cv img) (inputDets h)\<rparr>) = Inr h'"
    by (simp add: MatchImage_of_def MatchImage_def Let_def)
  from match_loop_acceptRatio [OF this] show ?thesis by simp
qed

lemma MatchHandler_of_acceptRatio:
  "MatchHandler_of src features matcher_names = Inr h \<Longrightarrow> acceptRatio h = Fin (1 / 2)"
  by (cases src)
     (simp_all add: MatchHandler_of_def MatchHandler_ctor_acceptRatio
        MatchHandler_ctor_hpp_acceptRatio)

lemma set_update_pred: "\<forall>x\<in>set xs. Q x \<Longrightarrow> Q y \<Longrightarrow> \<forall>x\<in>set (xs[k := y]). Q x"
  using set_update_subset_insert [of xs k y] by auto

lemma step_ChangeAcceptRatio_eq:
  "step src cv (call_ChangeAcceptRatio k change) p =
     bind (vec_at (handlers p) k) (\<lambda>h.
     Inr (p\<lparr>AcceptRatio_static := snd (ChangeAcceptRatio change h),
            handlers := (handlers p)[k := fst (ChangeAcceptRatio change h)]\<rparr>))"
  by (simp add: step_def case_prod_beta)

lemma step_keeps_static:
  assumes "\<not> is_ChangeAcceptRatio c" and "step src cv c p = Inr p'"
  shows "AcceptRatio_static p' = AcceptRatio_static p"
proof (cases c)
  case (call_MatchHandler features matcher_names)
  with assms(2) show ?thesis by (auto simp: step_def bind_eq_Inr)
next
  case (call_SetRefImage k refimg)
  with assms(2) show ?thesis by (auto simp: step_def bind_eq_Inr)
next
  case (call_MatchImage k inpimg)
  with assms(2) show ?thesis by (auto simp: step_def bind_eq_Inr)
next
  case (call_ChangeAcceptRatio k change)
  with assms(1) show ?thesis by simp
next
  case (call_DrawMatchResult k maxHeight)
  with assms(2) show ?thesis by (auto simp: step_def bind_eq_Inr)
qed

text \<open>
  A property of the tracked ratios that the initial value has and that the changes of a
  client keep holds of every handler after every call.
\<close>

lemma step_tracked:
  assumes st: "step src cv c p = Inr p'"
    and ch: "\<And>k change h. c = call_ChangeAcceptRatio k change \<Longrightarrow> P (acceptRatio h) \<Longrightarrow>
        P (snd (ChangeAcceptRatio change h))"
    and half: "P (Fin (1 / 2))"
    and old: "\<forall>h\<in>set (handlers p). P (acceptRatio h)"
  shows "\<forall>h\<in>set (handlers p'). P (acceptRatio h)"
proof (cases c)
  case (call_MatchHandler features matcher_names)
  with st obtain h where h: "MatchHandler_of src features matcher_names = Inr h"
      and p': "p' = p\<lparr>handlers := handlers p @ [h]\<rparr>"
    by (auto simp: step_def bind_eq_Inr)
  from MatchHandler_of_acceptRatio [OF h] half have "P (acceptRatio h)" by simp
  with old show ?thesis by (simp add: p')
next
  case (call_SetRefImage k refimg)
  with st obtain h where h: "vec_at (handlers p) k = Inr h"
      and p': "p' = p\<lparr>handlers := (handlers p)[k := SetRefImage cv refimg h]\<rparr>"
    by (auto simp: step_def bind_eq_Inr)
  from h have "h \<in> set (handlers p)" by (auto simp: vec_at_def split: if_splits)
  with old have "P (acceptRatio (SetRefImage cv refimg h))" by (simp add: SetRefImage_def)
  with old have "\<forall>x\<in>set ((handlers p)[k := SetRefImage cv refimg h]). P (acceptRatio x)"
    by (rule set_update_pred)
  then show ?thesis by (simp add: p')
next
  case (call_MatchImage k inpimg)
  with st obtain h h' where h: "vec_at (handlers p) k = Inr h"
      and m: "MatchImage_of src cv (AcceptRatio_static p) inpimg h = Inr h'"
      and p': "p' = p\<lparr>handlers := (handlers p)[k := h']\<rparr>"
    by (auto simp: step_def bind_eq_Inr)
  from h have "h \<in> set (handlers p)" by (auto simp: vec_at_def split: if_splits)
  with old MatchImage_of_acceptRatio [OF m] have "P (acceptRatio h')" by simp
  with old have "\<forall>x\<in>set ((handlers p)[k := h']). P (acceptRatio x)"
    by (rule set_update_pred)
  then show ?thesis by (simp add: p')
next
  case (call_ChangeAcceptRatio k change)
  with st obtain h where h: "vec_at (handlers p) k = Inr h"
      and p': "p' = p\<lparr>AcceptRatio_static := snd (ChangeAcceptRatio change h),
                      handlers := (handlers p)[k := fst (ChangeAcceptRatio change h)]\<rparr>"
    by (auto simp: step_ChangeAcceptRatio_eq bind_eq_Inr)
  from h have "h \<in> set (handlers p)" by (auto simp: vec_at_def split: if_splits)
  with old have "P (acceptRatio h)" by simp
  from ch [OF call_ChangeAcceptRatio this]
  have "P (acceptRatio (fst (ChangeAcceptRatio change h)))"
    by (simp add: ChangeAcceptRatio_def Let_def)
  with old
  have "\<forall>x\<in>set ((handlers p)[k := fst (ChangeAcceptRatio change h)]). P (acceptRatio x)"
    by (rule set_update_pred)
  then show ?thesis by (simp add: p')
next
  case (call_DrawMatchResult k maxHeight)
  with st have "p' = p" by (auto simp: step_def bind_eq_Inr)
  with old show ?thesis by simp
qed

lemma step_static_tracked:
  assumes st: "step src cv c p = Inr p'"
    and ch: "\<And>k change h. c = call_ChangeAcceptRatio k change \<Longrightarrow> P (acceptRatio h) \<Longrightarrow>
        P (snd (ChangeAcceptRatio change h))"
    and static: "P (AcceptRatio_static p)"
    and old: "\<forall>h\<in>set (handlers p). P (acceptRatio h)"
  shows "P (AcceptRatio_static p')"
proof (cases "is_ChangeAcceptRatio c")
  case False
  from step_keeps_static [OF False st] static show ?thesis by simp
next
  case True
  then obtain k change where c: "c = call_ChangeAcceptRatio k change" by (cases c) simp_all
  with st obtain h where h: "vec_at (handlers p) k = Inr h"
      and p': "AcceptRatio_static p' = snd (ChangeAcceptRatio change h)"
    by (auto simp: step_ChangeAcceptRatio_eq bind_eq_Inr)
  from h have "h \<in> set (handlers p)" by (auto simp: vec_at_def split: if_splits)
  with old have "P (acceptRatio h)" by simp
  from ch [OF c this] show ?thesis by (simp add: p')
qed

lemma run_tracked:
  assumes ch: "\<And>c k change h. c \<in> set cs \<Longrightarrow> c = call_ChangeAcceptRatio k change \<Longrightarrow>
        P (acceptRatio h) \<Longrightarrow> P (snd (ChangeAcceptRatio change h))"
    and half: "P (Fin (1 / 2))"
    and run: "run src cv cs Process_start = Inr p"
  shows "P (AcceptRatio_static p) \<and> (\<forall>h\<in>set (handlers p). P (acceptRatio h))"
proof (rule run_invariant [where I = "\<lambda>q. P (AcceptRatio_static q) \<and>
      (\<forall>h\<in>set (handlers q). P (acceptRatio h))", OF _ _ run])
  show "P (AcceptRatio_static Process_start) \<and>
      (\<forall>h\<in>set (handlers Process_start). P (acceptRatio h))"
    using half by (simp add: Process_start_def AcceptRatio_init_def)
next
  fix c q q'
  assume c: "c \<in> set cs"
    and I: "P (AcceptRatio_static q) \<and> (\<forall>h\<in>set (handlers q). P (acceptRatio h))"
    and st: "step src cv c q = Inr q'"
  have ch': "P (snd (ChangeAcceptRatio change h))"
    if "c = call_ChangeAcceptRatio k change" "P (acceptRatio h)" for k change h
    using ch [OF c that] .
  from I have s: "P (AcceptRatio_static q)" and t: "\<forall>h\<in>set (handlers q). P (acceptRatio h)"
    by simp_all
  from step_static_tracked [of src cv c q q' P, OF st ch' s t]
    step_tracked [of src cv c q q' P, OF st ch' half t]
  show "P (AcceptRatio_static q') \<and> (\<forall>h\<in>set (handlers q'). P (acceptRatio h))" by simp
qed


section \<open>The acceptance ratio\<close>

lemma ChangeAcceptRatio_number:
  assumes "change \<noteq> NaN" and "acceptRatio h = Fin a"
  shows "\<exists>s. 0 \<le> s \<and> s \<le> 1 \<and>
     ChangeAcceptRatio change h = (h\<lparr>acceptRatio := Fin s\<rparr>, Fin s) \<and>
     Fin s = std_max (std_min (float_add (Fin a) change) (Fin 1)) (Fin 0) \<and>
     (case float_add (Fin a) change of
        Fin r \<Rightarrow> s = max (min r 1) 0 | PInf \<Rightarrow> s = 1 | NInf \<Rightarrow> s = 0 | NaN \<Rightarrow> False)"
proof -
  from clamp_number [OF float_add_not_NaN [OF assms(1), of a]]
  obtain s where s: "std_max (std_min (float_add (Fin a) change) (Fin 1)) (Fin 0) = Fin s"
      "0 \<le> s" "s \<le> 1"
      "case float_add (Fin a) change of
        Fin r \<Rightarrow> s = max (min r 1) 0 | PInf \<Rightarrow> s = 1 | NInf \<Rightarrow> s = 0 | NaN \<Rightarrow> False"
    by blast
  have "ChangeAcceptRatio change h = (h\<lparr>acceptRatio := Fin s\<rparr>, Fin s)"
    by (simp add: ChangeAcceptRatio_def Let_def assms(2) s(1))
  with s show ?thesis by metis
qed

lemma clamp_up:
  assumes "x = PInf \<or> (\<exists>r. x = Fin r \<and> 1 \<le> r)"
  shows "std_max (std_min x (Fin 1)) (Fin 0) = Fin 1"
  using assms by (auto simp: std_min_def std_max_def)

lemma clamp_down:
  assumes "x = NInf \<or> (\<exists>r. x = Fin r \<and> r \<le> 0)"
  shows "std_max (std_min x (Fin 1)) (Fin 0) = Fin 0"
  using assms by (auto simp: std_min_def std_max_def)

lemma from_half_up:
  assumes "change = PInf \<or> (\<exists>c. change = Fin c \<and> 1 / 2 \<le> c)"
  shows "std_max (std_min (float_add (Fin (1 / 2)) change) (Fin 1)) (Fin 0) = Fin 1"
proof (rule clamp_up)
  from assms show "float_add (Fin (1 / 2)) change = PInf \<or>
      (\<exists>r. float_add (Fin (1 / 2)) change = Fin r \<and> 1 \<le> r)"
  proof
    assume "change = PInf"
    then show ?thesis by simp
  next
    assume "\<exists>c. change = Fin c \<and> 1 / 2 \<le> c"
    then obtain c where c: "change = Fin c" "1 / 2 \<le> c" by blast
    have "1 \<le> 1 / 2 + c" using c(2) by simp
    from float_of_rat_ge_one [OF this] show ?thesis by (simp add: c(1))
  qed
qed

lemma from_half_down:
  assumes "change = NInf \<or> (\<exists>c. change = Fin c \<and> c \<le> - (1 / 2))"
  shows "std_max (std_min (float_add (Fin (1 / 2)) change) (Fin 1)) (Fin 0) = Fin 0"
proof (rule clamp_down)
  from assms show "float_add (Fin (1 / 2)) change = NInf \<or>
      (\<exists>r. float_add (Fin (1 / 2)) change = Fin r \<and> r \<le> 0)"
  proof
    assume "change = NInf"
    then show ?thesis by simp
  next
    assume "\<exists>c. change = Fin c \<and> c \<le> - (1 / 2)"
    then obtain c where c: "change = Fin c" "c \<le> - (1 / 2)" by blast
    have "1 / 2 + c \<le> 0" using c(2) by simp
    from float_of_rat_nonpos [OF this] show ?thesis by (simp add: c(1))
  qed
qed

lemma step_ChangeAcceptRatio:
  assumes "vec_at (handlers p) k = Inr h"
    and "ChangeAcceptRatio change h = (h', a)"
  shows "step src cv (call_ChangeAcceptRatio k change) p =
     Inr (p\<lparr>AcceptRatio_static := a, handlers := (handlers p)[k := h']\<rparr>)"
  by (simp add: step_def assms)

lemma step_MatchImage:
  "step src cv (call_MatchImage j img) q =
     bind (vec_at (handlers q) j) (\<lambda>h.
     bind (MatchImage_of src cv (AcceptRatio_static q) img h) (\<lambda>h'.
     Inr (q\<lparr>handlers := (handlers q)[j := h']\<rparr>)))"
  by (simp add: step_def)

lemma in_unit_after_change:
  assumes "change \<noteq> NaN" and "\<exists>a. acceptRatio h = Fin a \<and> 0 \<le> a \<and> a \<le> 1"
  shows "\<exists>a. snd (ChangeAcceptRatio change h) = Fin a \<and> 0 \<le> a \<and> a \<le> 1"
proof -
  from assms(2) obtain a where a: "acceptRatio h = Fin a" by blast
  from ChangeAcceptRatio_number [OF assms(1) a] obtain s where
    "0 \<le> s" "s \<le> 1" "ChangeAcceptRatio change h = (h\<lparr>acceptRatio := Fin s\<rparr>, Fin s)"
    by blast
  then show ?thesis by simp
qed

text \<open>
  C4 (amended). For every change that is not NaN, applied to a handler whose tracked ratio
  is a finite number, \<open>ChangeAcceptRatio\<close> adds the change to the tracked ratio (a
  single-precision addition, which may yield an infinity), clamps the sum to a number \<open>s\<close>
  of \<open>[0, 1]\<close>, keeps \<open>s\<close> as the tracked ratio and assigns \<open>s\<close> to the static; the
  next \<open>MatchImage\<close> of any handler runs its \<open>MatchDescriptors\<close> calls with \<open>s\<close>. From a
  tracked ratio of \<open>0.5\<close> every change of at least \<open>0.5\<close>, such as \<open>0.8f\<close>, gives
  exactly \<open>1\<close>, and every change of at most \<open>-0.5\<close>, such as \<open>-2\<close>, gives exactly \<open>0\<close>.
  In a client none of whose changes is NaN the static and every tracked ratio are numbers
  of \<open>[0, 1]\<close> after every call.
\<close>

theorem ChangeAcceptRatio_clamps:
  assumes "change \<noteq> NaN" and "acceptRatio h = Fin a"
  shows "\<exists>s. 0 \<le> s \<and> s \<le> 1 \<and>
     ChangeAcceptRatio change h = (h\<lparr>acceptRatio := Fin s\<rparr>, Fin s) \<and>
     Fin s = std_max (std_min (float_add (Fin a) change) (Fin 1)) (Fin 0) \<and>
     (case float_add (Fin a) change of
        Fin r \<Rightarrow> s = max (min r 1) 0 | PInf \<Rightarrow> s = 1 | NInf \<Rightarrow> s = 0 | NaN \<Rightarrow> False) \<and>
     (vec_at (handlers p) k = Inr h \<longrightarrow>
        step src cv (call_ChangeAcceptRatio k change) p =
          Inr (p\<lparr>AcceptRatio_static := Fin s,
                 handlers := (handlers p)[k := h\<lparr>acceptRatio := Fin s\<rparr>]\<rparr>)) \<and>
     (AcceptRatio_static q = Fin s \<longrightarrow>
        step src cv (call_MatchImage j img) q =
          bind (vec_at (handlers q) j) (\<lambda>h.
          bind (MatchImage_of src cv (Fin s) img h) (\<lambda>h'.
          Inr (q\<lparr>handlers := (handlers q)[j := h']\<rparr>)))) \<and>
     (a = 1 / 2 \<and> (change = PInf \<or> (\<exists>c. change = Fin c \<and> 1 / 2 \<le> c)) \<longrightarrow> s = 1) \<and>
     (a = 1 / 2 \<and> (change = NInf \<or> (\<exists>c. change = Fin c \<and> c \<le> - (1 / 2))) \<longrightarrow> s = 0) \<and>
     (a = 1 / 2 \<and> change = float_of_rat (8 / 10) \<longrightarrow> s = 1) \<and>
     (a = 1 / 2 \<and> change = Fin (- 2) \<longrightarrow> s = 0) \<and>
     ((\<forall>c\<in>set cs. \<forall>i. c \<noteq> call_ChangeAcceptRatio i NaN) \<and>
      run src cv cs Process_start = Inr p' \<longrightarrow>
        (\<exists>r. AcceptRatio_static p' = Fin r \<and> 0 \<le> r \<and> r \<le> 1) \<and>
        (\<forall>h\<in>set (handlers p'). \<exists>r. acceptRatio h = Fin r \<and> 0 \<le> r \<and> r \<le> 1))"
proof -
  from ChangeAcceptRatio_number [OF assms] obtain s where s: "0 \<le> s" "s \<le> 1"
      "ChangeAcceptRatio change h = (h\<lparr>acceptRatio := Fin s\<rparr>, Fin s)"
      "Fin s = std_max (std_min (float_add (Fin a) change) (Fin 1)) (Fin 0)"
      "case float_add (Fin a) change of
        Fin r \<Rightarrow> s = max (min r 1) 0 | PInf \<Rightarrow> s = 1 | NInf \<Rightarrow> s = 0 | NaN \<Rightarrow> False"
    by blast
  have st: "step src cv (call_ChangeAcceptRatio k change) p =
          Inr (p\<lparr>AcceptRatio_static := Fin s,
                 handlers := (handlers p)[k := h\<lparr>acceptRatio := Fin s\<rparr>]\<rparr>)"
    if "vec_at (handlers p) k = Inr h"
    using that s(3) by (rule step_ChangeAcceptRatio)
  have mt: "step src cv (call_MatchImage j img) q =
          bind (vec_at (handlers q) j) (\<lambda>h.
          bind (MatchImage_of src cv (Fin s) img h) (\<lambda>h'.
          Inr (q\<lparr>handlers := (handlers q)[j := h']\<rparr>)))"
    if "AcceptRatio_static q = Fin s"
    by (simp only: step_MatchImage that)
  have up: "s = 1" if "a = 1 / 2" "change = PInf \<or> (\<exists>c. change = Fin c \<and> 1 / 2 \<le> c)"
    using s(4) from_half_up [OF that(2)] by (simp add: that(1))
  have down: "s = 0" if "a = 1 / 2" "change = NInf \<or> (\<exists>c. change = Fin c \<and> c \<le> - (1 / 2))"
    using s(4) from_half_down [OF that(2)] by (simp add: that(1))
  have e8: "s = 1" if "a = 1 / 2" "change = float_of_rat (8 / 10)"
  proof -
    have "\<exists>c. change = Fin c \<and> 1 / 2 \<le> c"
      unfolding that(2) float_of_rat_eight_tenths
      by (rule exI [of _ "13421773 / 16777216"]) simp
    with up [OF that(1)] show ?thesis by blast
  qed
  have m2: "s = 0" if "a = 1 / 2" "change = Fin (- 2)"
  proof -
    have "\<exists>c. change = Fin c \<and> c \<le> - (1 / 2)"
      unfolding that(2) by (rule exI [of _ "- 2"]) simp
    with down [OF that(1)] show ?thesis by blast
  qed
  have reach: "(\<exists>r. AcceptRatio_static p' = Fin r \<and> 0 \<le> r \<and> r \<le> 1) \<and>
        (\<forall>h\<in>set (handlers p'). \<exists>r. acceptRatio h = Fin r \<and> 0 \<le> r \<and> r \<le> 1)"
    if nn: "\<forall>c\<in>set cs. \<forall>i. c \<noteq> call_ChangeAcceptRatio i NaN"
      and run: "run src cv cs Process_start = Inr p'"
  proof (rule run_tracked [where P = "\<lambda>x. \<exists>r. x = Fin r \<and> 0 \<le> r \<and> r \<le> 1", OF _ _ run])
    show "\<exists>r. Fin (1 / 2) = Fin r \<and> 0 \<le> r \<and> r \<le> 1"
      by (rule exI [of _ "1 / 2"]) simp
  next
    fix c i d and g :: MatchHandler
    assume c: "c \<in> set cs" "c = call_ChangeAcceptRatio i d"
      and g: "\<exists>r. acceptRatio g = Fin r \<and> 0 \<le> r \<and> r \<le> 1"
    from nn c have "d \<noteq> NaN" by blast
    from in_unit_after_change [OF this g]
    show "\<exists>r. snd (ChangeAcceptRatio d g) = Fin r \<and> 0 \<le> r \<and> r \<le> 1" .
  qed
  show ?thesis
  proof (rule exI [of _ s], intro conjI)
    show "0 \<le> s" by (rule s(1))
    show "s \<le> 1" by (rule s(2))
    show "ChangeAcceptRatio change h = (h\<lparr>acceptRatio := Fin s\<rparr>, Fin s)" by (rule s(3))
    show "Fin s = std_max (std_min (float_add (Fin a) change) (Fin 1)) (Fin 0)" by (rule s(4))
    show "case float_add (Fin a) change of
        Fin r \<Rightarrow> s = max (min r 1) 0 | PInf \<Rightarrow> s = 1 | NInf \<Rightarrow> s = 0 | NaN \<Rightarrow> False"
      by (rule s(5))
    show "vec_at (handlers p) k = Inr h \<longrightarrow>
        step src cv (call_ChangeAcceptRatio k change) p =
          Inr (p\<lparr>AcceptRatio_static := Fin s,
                 handlers := (handlers p)[k := h\<lparr>acceptRatio := Fin s\<rparr>]\<rparr>)"
      by (rule impI) (rule st)
    show "AcceptRatio_static q = Fin s \<longrightarrow>
        step src cv (call_MatchImage j img) q =
          bind (vec_at (handlers q) j) (\<lambda>h.
          bind (MatchImage_of src cv (Fin s) img h) (\<lambda>h'.
          Inr (q\<lparr>handlers := (handlers q)[j := h']\<rparr>)))"
      by (rule impI) (rule mt)
    show "a = 1 / 2 \<and> (change = PInf \<or> (\<exists>c. change = Fin c \<and> 1 / 2 \<le> c)) \<longrightarrow> s = 1"
      using up by blast
    show "a = 1 / 2 \<and> (change = NInf \<or> (\<exists>c. change = Fin c \<and> c \<le> - (1 / 2))) \<longrightarrow> s = 0"
      using down by blast
    show "a = 1 / 2 \<and> change = float_of_rat (8 / 10) \<longrightarrow> s = 1"
      using e8 by blast
    show "a = 1 / 2 \<and> change = Fin (- 2) \<longrightarrow> s = 0"
      using m2 by blast
    show "(\<forall>c\<in>set cs. \<forall>i. c \<noteq> call_ChangeAcceptRatio i NaN) \<and>
      run src cv cs Process_start = Inr p' \<longrightarrow>
        (\<exists>r. AcceptRatio_static p' = Fin r \<and> 0 \<le> r \<and> r \<le> 1) \<and>
        (\<forall>h\<in>set (handlers p'). \<exists>r. acceptRatio h = Fin r \<and> 0 \<le> r \<and> r \<le> 1)"
      using reach by blast
  qed
qed

theorem ChangeAcceptRatio_clamps_witness:
  "Fin (13 / 10) \<noteq> NaN \<and> Fin (- 2) \<noteq> NaN \<and> float_of_rat (8 / 10) \<noteq> NaN \<and>
   acceptRatio \<lparr>referDets = [], inputDets = [], matchers = [], acceptRatio = Fin (1 / 2)\<rparr> =
     Fin (1 / 2) \<and>
   vec_at (handlers \<lparr>AcceptRatio_static = Fin (1 / 2),
       handlers = [\<lparr>referDets = [], inputDets = [], matchers = [],
                    acceptRatio = Fin (1 / 2)\<rparr>]\<rparr>) 0 =
     Inr \<lparr>referDets = [], inputDets = [], matchers = [], acceptRatio = Fin (1 / 2)\<rparr> \<and>
   ChangeAcceptRatio (Fin (13 / 10))
     \<lparr>referDets = [], inputDets = [], matchers = [], acceptRatio = Fin (1 / 2)\<rparr> =
     (\<lparr>referDets = [], inputDets = [], matchers = [], acceptRatio = Fin 1\<rparr>, Fin 1) \<and>
   step part_000 demo_cv (call_ChangeAcceptRatio 0 (Fin (13 / 10)))
     \<lparr>AcceptRatio_static = Fin (1 / 2),
      handlers = [\<lparr>referDets = [], inputDets = [], matchers = [],
                   acceptRatio = Fin (1 / 2)\<rparr>]\<rparr> =
     Inr \<lparr>AcceptRatio_static = Fin 1,
          handlers = [\<lparr>referDets = [], inputDets = [], matchers = [], acceptRatio = Fin 1\<rparr>]\<rparr> \<and>
   step part_000 demo_cv (call_MatchImage 0 Mat_default)
     \<lparr>AcceptRatio_static = Fin 1,
      handlers = [\<lparr>referDets = [], inputDets = [], matchers = [], acceptRatio = Fin 1\<rparr>]\<rparr> =
     bind (vec_at [\<lparr>referDets = [], inputDets = [], matchers = [], acceptRatio = Fin 1\<rparr>] 0)
       (\<lambda>h. bind (MatchImage_of part_000 demo_cv (Fin 1) Mat_default h) (\<lambda>h'.
          Inr \<lparr>AcceptRatio_static = Fin 1, handlers = [h']\<rparr>)) \<and>
   ChangeAcceptRatio (float_of_rat (8 / 10))
     \<lparr>referDets = [], inputDets = [], matchers = [], acceptRatio = Fin (1 / 2)\<rparr> =
     (\<lparr>referDets = [], inputDets = [], matchers = [], acceptRatio = Fin 1\<rparr>, Fin 1) \<and>
   ChangeAcceptRatio (Fin (- 2))
     \<lparr>referDets = [], inputDets = [], matchers = [], acceptRatio = Fin (1 / 2)\<rparr> =
     (\<lparr>referDets = [], inputDets = [], matchers = [], acceptRatio = Fin 0\<rparr>, Fin 0)"
proof -
  let ?h = "\<lparr>referDets = [], inputDets = [], matchers = [], acceptRatio = Fin (1 / 2)\<rparr>"
  let ?p = "\<lparr>AcceptRatio_static = Fin (1 / 2), handlers = [?h]\<rparr>"
  let ?q = "\<lparr>AcceptRatio_static = Fin 1,
      handlers = [\<lparr>referDets = [], inputDets = [], matchers = [], acceptRatio = Fin 1\<rparr>]\<rparr>"
  have n: "Fin (13 / 10) \<noteq> NaN" "Fin (- 2) \<noteq> NaN" "float_of_rat (8 / 10) \<noteq> NaN"
    by (simp_all add: float_of_rat_not_NaN)
  have a: "acceptRatio ?h = Fin (1 / 2)" by simp
  have v: "vec_at (handlers ?p) 0 = Inr ?h" by (simp add: vec_at_def)
  from ChangeAcceptRatio_clamps [OF n(1) a, where p = ?p and k = 0 and src = part_000
      and cv = demo_cv and q = ?q and j = 0 and img = Mat_default and cs = "[]" and p' = ?p]
  obtain s where s: "ChangeAcceptRatio (Fin (13 / 10)) ?h = (?h\<lparr>acceptRatio := Fin s\<rparr>, Fin s)"
      "vec_at (handlers ?p) 0 = Inr ?h \<longrightarrow>
        step part_000 demo_cv (call_ChangeAcceptRatio 0 (Fin (13 / 10))) ?p =
          Inr (?p\<lparr>AcceptRatio_static := Fin s,
                 handlers := (handlers ?p)[0 := ?h\<lparr>acceptRatio := Fin s\<rparr>]\<rparr>)"
      "AcceptRatio_static ?q = Fin s \<longrightarrow>
        step part_000 demo_cv (call_MatchImage 0 Mat_default) ?q =
          bind (vec_at (handlers ?q) 0) (\<lambda>h.
          bind (MatchImage_of part_000 demo_cv (Fin s) Mat_default h) (\<lambda>h'.
          Inr (?q\<lparr>handlers := (handlers ?q)[0 := h']\<rparr>)))"
      "1 / 2 = (1 / 2 :: rat) \<and>
        (Fin (13 / 10) = PInf \<or> (\<exists>c. Fin (13 / 10) = Fin c \<and> 1 / 2 \<le> c)) \<longrightarrow> s = 1"
    by (elim exE conjE) (rule that; assumption)
  have "\<exists>c. Fin (13 / 10) = Fin c \<and> 1 / 2 \<le> c"
    by (rule exI [of _ "13 / 10"]) simp
  with s(4) have s1: "s = 1" by blast
  from ChangeAcceptRatio_clamps [OF n(2) a, where p = ?p and k = 0 and src = part_000
      and cv = demo_cv and q = ?p and j = 0 and img = Mat_default and cs = "[]" and p' = ?p]
  obtain t where t: "ChangeAcceptRatio (Fin (- 2)) ?h = (?h\<lparr>acceptRatio := Fin t\<rparr>, Fin t)"
      "1 / 2 = (1 / 2 :: rat) \<and> Fin (- 2 :: rat) = Fin (- 2) \<longrightarrow> t = 0"
    by (elim exE conjE) (rule that; assumption)
  from t(2) have t0: "t = 0" by simp
  from ChangeAcceptRatio_clamps [OF n(3) a, where p = ?p and k = 0 and src = part_000
      and cv = demo_cv and q = ?p and j = 0 and img = Mat_default and cs = "[]" and p' = ?p]
  obtain u where u: "ChangeAcceptRatio (float_of_rat (8 / 10)) ?h =
        (?h\<lparr>acceptRatio := Fin u\<rparr>, Fin u)"
      "1 / 2 = (1 / 2 :: rat) \<and> float_of_rat (8 / 10) = float_of_rat (8 / 10) \<longrightarrow> u = 1"
    by (elim exE conjE) (rule that; assumption)
  from u(2) have u1: "u = 1" by simp
  have m: "step part_000 demo_cv (call_MatchImage 0 Mat_default) ?q =
     bind (vec_at [\<lparr>referDets = [], inputDets = [], matchers = [], acceptRatio = Fin 1\<rparr>] 0)
       (\<lambda>h. bind (MatchImage_of part_000 demo_cv (Fin 1) Mat_default h) (\<lambda>h'.
          Inr \<lparr>AcceptRatio_static = Fin 1, handlers = [h']\<rparr>))"
    using s(3) unfolding s1 by simp
  have c1: "ChangeAcceptRatio (Fin (13 / 10)) ?h =
     (\<lparr>referDets = [], inputDets = [], matchers = [], acceptRatio = Fin 1\<rparr>, Fin 1)"
    using s(1) unfolding s1 by simp
  have c2: "step part_000 demo_cv (call_ChangeAcceptRatio 0 (Fin (13 / 10))) ?p = Inr ?q"
    using s(2) v unfolding s1 by simp
  have c3: "ChangeAcceptRatio (float_of_rat (8 / 10)) ?h =
     (\<lparr>referDets = [], inputDets = [], matchers = [], acceptRatio = Fin 1\<rparr>, Fin 1)"
    using u(1) unfolding u1 by simp
  have c4: "ChangeAcceptRatio (Fin (- 2)) ?h =
     (\<lparr>referDets = [], inputDets = [], matchers = [], acceptRatio = Fin 0\<rparr>, Fin 0)"
    using t(1) unfolding t0 by simp
  from n a v c1 c2 m c3 c4 show ?thesis by (intro conjI)
qed

text \<open>
  C4, as stated, fails: not for every change is the stored ratio in \<open>[0, 1]\<close>. The sum
  of a number and NaN is NaN, and neither \<open>std::min(NaN, 1.f)\<close> nor
  \<open>std::max(NaN, 0.f)\<close> replaces it, every comparison with NaN being false. After
  \<open>ChangeAcceptRatio(NaN)\<close> on a new handler the tracked ratio and the static are NaN, in
  both source files, and a \<open>MatchDescriptors\<close> call that reads this ratio converts NaN
  to \<open>int\<close>, which is undefined.
\<close>

theorem ChangeAcceptRatio_NaN_counterexample:
  "ChangeAcceptRatio NaN
     \<lparr>referDets = [], inputDets = [], matchers = [], acceptRatio = Fin (1 / 2)\<rparr> =
     (\<lparr>referDets = [], inputDets = [], matchers = [], acceptRatio = NaN\<rparr>, NaN) \<and>
   run part_000 demo_cv
     [call_MatchHandler [''sift''] [''bf''], call_ChangeAcceptRatio 0 NaN] Process_start =
     Inr \<lparr>AcceptRatio_static = NaN,
          handlers = [\<lparr>referDets = [Detector_ctor ''sift'' SIFT_create],
                       inputDets = [Detector_ctor ''sift'' SIFT_create],
                       matchers = [Matcher_ctor ''bf'' (BFMatcher_create NORM_L1)],
                       acceptRatio = NaN\<rparr>]\<rparr> \<and>
   run feature_hpp demo_cv
     [call_MatchHandler [''sift''] [''bf''], call_ChangeAcceptRatio 0 NaN] Process_start =
     Inr \<lparr>AcceptRatio_static = NaN,
          handlers = [\<lparr>referDets = [Detector_ctor ''sift'' SIFT_create],
                       inputDets = [Detector_ctor ''sift'' SIFT_create],
                       matchers = [Matcher_ctor ''bf'' (BFMatcher_create NORM_L1)],
                       acceptRatio = NaN\<rparr>]\<rparr> \<and>
   \<not> (\<exists>s. NaN = Fin s \<and> 0 \<le> s \<and> s \<le> 1) \<and>
   \<not> float_less (Fin 0) NaN \<and> \<not> float_less NaN (Fin 1) \<and> NaN \<noteq> Fin 0 \<and> NaN \<noteq> Fin 1 \<and>
   MatchDescriptors demo_cv NaN (column_image 3) (column_image 4)
     (Matcher_ctor ''bf'' (BFMatcher_create NORM_L1)) = Inl UndefinedBehaviour"
  by (simp add: ChangeAcceptRatio_def clamp_NaN step_def MatchHandler_of_def ctor_sift_bf
      ctor_hpp_sift_bf Process_start_def vec_at_def MatchDescriptors_def Let_def float_mul_NaN)


section \<open>The initial ratio\<close>













section \<open>Pairing of the pipelines\<close>

lemma MatchHandler_ctor_indexwise:
  assumes len: "length features = length matcher_names"
    and fs: "set features \<subseteq> {''sift'', ''surf'', ''orb'', ''kaze'', ''brisk''}"
    and ms: "set matcher_names \<subseteq> {''flann'', ''bf''}"
  shows "\<exists>h. MatchHandler_ctor features matcher_names = Inr h \<and>
      sizes h = (length features, length features, length features) \<and>
      (\<forall>i<length features.
         Detector_Factory (features ! i) = Inr (referDets h ! i) \<and>
         Detector_Factory (features ! i) = Inr (inputDets h ! i) \<and>
         Matcher_Factory (matcher_names ! i) (features ! i) = Inr (matchers h ! i))"
proof -
  let ?h = "\<lparr>referDets = map (\<lambda>n. projr (Detector_Factory n)) features,
          inputDets = map (\<lambda>n. projr (Detector_Factory n)) features,
          matchers = map (\<lambda>i. projr (Matcher_Factory (matcher_names ! i) (features ! i)))
                       [0..<length matcher_names],
          acceptRatio = Fin (1 / 2)\<rparr>"
  have c: "MatchHandler_ctor features matcher_names = Inr ?h"
    by (rule MatchHandler_ctor_ok [OF assms])
  have s: "sizes ?h = (length features, length features, length features)"
    by (simp add: sizes_def len)
  have ix: "Detector_Factory (features ! i) = Inr (referDets ?h ! i) \<and>
         Detector_Factory (features ! i) = Inr (inputDets ?h ! i) \<and>
         Matcher_Factory (matcher_names ! i) (features ! i) = Inr (matchers ?h ! i)"
    if i: "i < length features" for i
  proof -
    have "features ! i \<in> set features" using i by simp
    with fs have d: "Detector_Factory (features ! i) = Inr (projr (Detector_Factory (features ! i)))"
      by (intro Detector_Factory_projr) auto
    have "matcher_names ! i \<in> set matcher_names" using i len by simp
    with ms have m: "Matcher_Factory (matcher_names ! i) (features ! i) =
        Inr (projr (Matcher_Factory (matcher_names ! i) (features ! i)))"
      by (intro Matcher_Factory_projr) auto
    have r: "referDets ?h ! i = projr (Detector_Factory (features ! i))"
      "inputDets ?h ! i = projr (Detector_Factory (features ! i))"
      "matchers ?h ! i = projr (Matcher_Factory (matcher_names ! i) (features ! i))"
      using i len by simp_all
    show ?thesis unfolding r using d m by (intro conjI)
  qed
  from c s ix show ?thesis by blast
qed

lemma MatchHandler_ctor_hpp_indexwise:
  assumes len: "length features = length matcher_names"
    and fs: "set features \<subseteq> {''sift'', ''surf'', ''orb'', ''kaze'', ''brisk''}"
    and ms: "set matcher_names \<subseteq> {''flann'', ''bf''}"
  shows "\<exists>h. MatchHandler_ctor_hpp features matcher_names = Inr h \<and>
      sizes h = (length features, length features, length features) \<and>
      (\<forall>i<length features.
         Detector_Factory_hpp (features ! i) = Inr (referDets h ! i) \<and>
         Detector_Factory_hpp (features ! i) = Inr (inputDets h ! i) \<and>
         Matcher_Factory_hpp (matcher_names ! i) = Inr (matchers h ! i))"
proof -
  let ?h = "\<lparr>referDets = map (\<lambda>n. projr (Detector_Factory_hpp n)) features,
          inputDets = map (\<lambda>n. projr (Detector_Factory_hpp n)) features,
          matchers = map (\<lambda>n. projr (Matcher_Factory_hpp n)) matcher_names,
          acceptRatio = Fin (1 / 2)\<rparr>"
  have c: "MatchHandler_ctor_hpp features matcher_names = Inr ?h"
    by (rule MatchHandler_ctor_hpp_ok [OF assms])
  have s: "sizes ?h = (length features, length features, length features)"
    by (simp add: sizes_def len)
  have ix: "Detector_Factory_hpp (features ! i) = Inr (referDets ?h ! i) \<and>
         Detector_Factory_hpp (features ! i) = Inr (inputDets ?h ! i) \<and>
         Matcher_Factory_hpp (matcher_names ! i) = Inr (matchers ?h ! i)"
    if i: "i < length features" for i
  proof -
    have "features ! i \<in> set features" using i by simp
    with fs have d: "Detector_Factory_hpp (features ! i) =
        Inr (projr (Detector_Factory_hpp (features ! i)))"
      unfolding Detector_Factory_hpp_eq by (intro Detector_Factory_projr) auto
    have "matcher_names ! i \<in> set matcher_names" using i len by simp
    with ms have m: "Matcher_Factory_hpp (matcher_names ! i) =
        Inr (projr (Matcher_Factory_hpp (matcher_names ! i)))"
      by (intro Matcher_Factory_hpp_projr) auto
    have r: "referDets ?h ! i = projr (Detector_Factory_hpp (features ! i))"
      "inputDets ?h ! i = projr (Detector_Factory_hpp (features ! i))"
      "matchers ?h ! i = projr (Matcher_Factory_hpp (matcher_names ! i))"
      using i len by simp_all
    show ?thesis unfolding r using d m by (intro conjI)
  qed
  from c s ix show ?thesis by blast
qed

lemma MatchHandler_ctor_unequal:
  "length features \<noteq> length matcher_names \<Longrightarrow>
   MatchHandler_ctor features matcher_names = Inl AssertionFailed \<and>
   MatchHandler_ctor_hpp features matcher_names = Inl AssertionFailed"
  by (simp add: MatchHandler_ctor_def MatchHandler_ctor_hpp_def)

text \<open>
  C7 (amended). For name lists of equal length \<open>n\<close> that hold recognised names only, both
  constructors return a handler whose three lists have length \<open>n\<close> and whose entries at
  index \<open>i\<close> are what the factories build from the \<open>i\<close>-th feature name and the \<open>i\<close>-th
  matcher name (in the second source file the matcher also from the \<open>i\<close>-th feature name).
  Lists of unequal length fail the assertion. \<open>SetRefImage\<close>, \<open>MatchImage\<close> (when it
  returns) and \<open>ChangeAcceptRatio\<close> leave the lengths, the names and the algorithm objects
  at every index as they were.
\<close>

theorem MatchHandler_pairs_pipelines:
  "(length features = length matcher_names \<and>
    set features \<subseteq> {''sift'', ''surf'', ''orb'', ''kaze'', ''brisk''} \<and>
    set matcher_names \<subseteq> {''flann'', ''bf''} \<longrightarrow>
      (\<exists>h. MatchHandler_ctor features matcher_names = Inr h \<and>
         sizes h = (length features, length features, length features) \<and>
         (\<forall>i<length features.
            Detector_Factory (features ! i) = Inr (referDets h ! i) \<and>
            Detector_Factory (features ! i) = Inr (inputDets h ! i) \<and>
            Matcher_Factory (matcher_names ! i) (features ! i) = Inr (matchers h ! i))) \<and>
      (\<exists>h. MatchHandler_ctor_hpp features matcher_names = Inr h \<and>
         sizes h = (length features, length features, length features) \<and>
         (\<forall>i<length features.
            Detector_Factory_hpp (features ! i) = Inr (referDets h ! i) \<and>
            Detector_Factory_hpp (features ! i) = Inr (inputDets h ! i) \<and>
            Matcher_Factory_hpp (matcher_names ! i) = Inr (matchers h ! i)))) \<and>
   (length features \<noteq> length matcher_names \<longrightarrow>
      MatchHandler_ctor features matcher_names = Inl AssertionFailed \<and>
      MatchHandler_ctor_hpp features matcher_names = Inl AssertionFailed) \<and>
   pipelines (SetRefImage cv img h) = pipelines h \<and>
   sizes (SetRefImage cv img h) = sizes h \<and>
   (MatchImage cv ratio img h = Inr h' \<longrightarrow> pipelines h' = pipelines h \<and> sizes h' = sizes h) \<and>
   (MatchImage_hpp cv ratio img h = Inr h' \<longrightarrow> pipelines h' = pipelines h \<and> sizes h' = sizes h) \<and>
   pipelines (fst (ChangeAcceptRatio change h)) = pipelines h \<and>
   sizes (fst (ChangeAcceptRatio change h)) = sizes h"
  using MatchHandler_ctor_indexwise [of features matcher_names]
    MatchHandler_ctor_hpp_indexwise [of features matcher_names]
    MatchHandler_ctor_unequal [of features matcher_names]
    SetRefImage_pipelines [of cv img h]
    MatchImage_pipelines [of cv ratio img h h']
    MatchImage_hpp_pipelines [of cv ratio img h h']
    ChangeAcceptRatio_pipelines [of change h]
  by blast


theorem MatchHandler_pairs_pipelines_witness:
  "length [''sift'', ''orb''] = length [''bf'', ''flann''] \<and>
   set [''sift'', ''orb''] \<subseteq> {''sift'', ''surf'', ''orb'', ''kaze'', ''brisk''} \<and>
   set [''bf'', ''flann''] \<subseteq> {''flann'', ''bf''} \<and>
   (\<exists>h. MatchHandler_ctor [''sift'', ''orb''] [''bf'', ''flann''] = Inr h \<and>
        sizes h = (2, 2, 2) \<and>
        Matcher_Factory ''flann'' ''orb'' = Inr (matchers h ! 1)) \<and>
   length [''sift'', ''orb'', ''kaze''] \<noteq> length [''bf'', ''flann''] \<and>
   MatchHandler_ctor [''sift'', ''orb'', ''kaze''] [''bf'', ''flann''] = Inl AssertionFailed \<and>
   (\<exists>h'. MatchImage demo_cv (Fin (1 / 2)) (column_image 4)
          (SetRefImage demo_cv (column_image 3)
             \<lparr>referDets = [Detector_ctor ''sift'' SIFT_create],
              inputDets = [Detector_ctor ''sift'' SIFT_create],
              matchers = [Matcher_ctor ''bf'' (BFMatcher_create NORM_L1)],
              acceptRatio = Fin (1 / 2)\<rparr>) = Inr h' \<and>
        sizes h' = (1, 1, 1)) \<and>
   (\<exists>h'. MatchImage_hpp demo_cv (Fin (1 / 2)) (column_image 4)
          (SetRefImage demo_cv (column_image 3)
             \<lparr>referDets = [Detector_ctor ''sift'' SIFT_create],
              inputDets = [Detector_ctor ''sift'' SIFT_create],
              matchers = [Matcher_ctor ''bf'' (BFMatcher_create NORM_L1)],
              acceptRatio = Fin (1 / 2)\<rparr>) = Inr h' \<and>
        sizes h' = (1, 1, 1))"
proof -
  let ?h0 = "\<lparr>referDets = [Detector_ctor ''sift'' SIFT_create],
              inputDets = [Detector_ctor ''sift'' SIFT_create],
              matchers = [Matcher_ctor ''bf'' (BFMatcher_create NORM_L1)],
              acceptRatio = Fin (1 / 2)\<rparr>"
  let ?h1 = "SetRefImage demo_cv (column_image 3) ?h0"
  have p: "length (referDets ?h1) = length (matchers ?h1)"
      "length (inputDets ?h1) = length (matchers ?h1)"
    by (simp_all add: SetRefImage_def)
  have sc: "sort_contract (std_sort demo_cv) xs" for xs
    by (simp add: sort_contract_sort_key)
  have small: "length (match demo_cv (matcher (matchers ?h1 ! j))
        (snd (detectAndCompute demo_cv (feature (inputDets ?h1 ! j)) (column_image 4)))
        (descriptors (referDets ?h1 ! j))) < 2 ^ 24" for j
    unfolding demo_small by simp
  have r: "(0::rat) \<le> 1 / 2" "(1::rat) / 2 \<le> 1" by simp_all
  have ret: "off_end_returns demo_cv" by simp
  have s1: "sizes ?h1 = (1, 1, 1)" by (simp add: sizes_def SetRefImage_def)
  obtain ha where ha: "MatchImage demo_cv (Fin (1 / 2)) (column_image 4) ?h1 = Inr ha"
    using MatchImage_result [OF ret p sc small r] by blast
  obtain hb where hb: "MatchImage_hpp demo_cv (Fin (1 / 2)) (column_image 4) ?h1 = Inr hb"
    using MatchImage_hpp_result [OF ret p sc small r] by blast
  note a = MatchHandler_pairs_pipelines [where features = "[''sift'', ''orb'']"
      and matcher_names = "[''bf'', ''flann'']" and cv = demo_cv and img = "column_image 4"
      and ratio = "Fin (1 / 2)" and h = ?h1 and h' = ha and change = "Fin 0"]
  note b = MatchHandler_pairs_pipelines [where features = "[''sift'', ''orb'', ''kaze'']"
      and matcher_names = "[''bf'', ''flann'']" and cv = demo_cv and img = "column_image 4"
      and ratio = "Fin (1 / 2)" and h = ?h1 and h' = hb and change = "Fin 0"]
  have e: "length [''sift'', ''orb''] = length [''bf'', ''flann'']"
    "set [''sift'', ''orb''] \<subseteq> {''sift'', ''surf'', ''orb'', ''kaze'', ''brisk''}"
    "set [''bf'', ''flann''] \<subseteq> {''flann'', ''bf''}"
    "length [''sift'', ''orb'', ''kaze''] \<noteq> length [''bf'', ''flann'']"
    by simp_all
  from a e obtain h where h: "MatchHandler_ctor [''sift'', ''orb''] [''bf'', ''flann''] = Inr h"
    "sizes h = (length [''sift'', ''orb''], length [''sift'', ''orb''], length [''sift'', ''orb''])"
    "\<forall>i<length [''sift'', ''orb''].
       Matcher_Factory ([''bf'', ''flann''] ! i) ([''sift'', ''orb''] ! i) = Inr (matchers h ! i)"
    by blast
  have "(1::nat) < length [''sift'', ''orb'']" by simp
  with h(3) have "Matcher_Factory ([''bf'', ''flann''] ! 1) ([''sift'', ''orb''] ! 1) =
      Inr (matchers h ! 1)" by blast
  then have m1: "Matcher_Factory ''flann'' ''orb'' = Inr (matchers h ! 1)" by simp
  have c1: "\<exists>h. MatchHandler_ctor [''sift'', ''orb''] [''bf'', ''flann''] = Inr h \<and>
        sizes h = (2, 2, 2) \<and> Matcher_Factory ''flann'' ''orb'' = Inr (matchers h ! 1)"
    using h(1,2) m1 by auto
  from b e have c2:
    "MatchHandler_ctor [''sift'', ''orb'', ''kaze''] [''bf'', ''flann''] = Inl AssertionFailed"
    by blast
  from a ha s1 have c3: "\<exists>h'. MatchImage demo_cv (Fin (1 / 2)) (column_image 4) ?h1 = Inr h' \<and>
        sizes h' = (1, 1, 1)" by metis
  from b hb s1 have c4: "\<exists>h'. MatchImage_hpp demo_cv (Fin (1 / 2)) (column_image 4) ?h1 = Inr h' \<and>
        sizes h' = (1, 1, 1)" by metis
  from e c1 c2 c3 c4 show ?thesis by (intro conjI)
qed


text \<open>
  C7, as stated, fails: name lists of equal length do not suffice. With a feature name that
  no factory knows, both constructors throw and no handler exists.
\<close>

theorem MatchHandler_unknown_name_counterexample:
  "length [''foo''] = length [''bf''] \<and>
   MatchHandler_ctor [''foo''] [''bf''] = Inl (Thrown ''error'') \<and>
   MatchHandler_ctor_hpp [''foo''] [''bf''] = Inl (Thrown ''error'')"
  by (simp add: MatchHandler_ctor_def MatchHandler_ctor_hpp_def Detector_Factory_def
      Detector_Factory_hpp_def)


section \<open>Last write wins\<close>

text \<open>
  C2. The claim fails on \<open>feature.hpp\<close>. With one pipeline (\<open>sift\<close>, \<open>bf\<close>), a
  reference image, then a first and a second input image of four and six rows at ratio
  \<open>0.5\<close>, \<open>getResult()\<close> of the matcher still returns the empty list of the constructor:
  its \<open>MatchDescriptors\<close> sorts and cuts a local vector. The second source file, run on
  the same calls, stores the three best matches of the second image and nothing of the first.
\<close>

theorem MatchDescriptors_hpp_stores_nothing:
  "bind (MatchHandler_ctor_hpp [''sift''] [''bf'']) (\<lambda>h.
   bind (MatchImage_hpp demo_cv AcceptRatio_init (column_image 4)
           (SetRefImage demo_cv (column_image 3) h)) (\<lambda>h.
   bind (MatchImage_hpp demo_cv AcceptRatio_init (column_image 6) h) (\<lambda>h.
   Inr (map (\<lambda>m. mr_matches (Matcher_getResult m)) (matchers h))))) = Inr [[]] \<and>
   bind (MatchHandler_ctor [''sift''] [''bf'']) (\<lambda>h.
   bind (MatchImage demo_cv AcceptRatio_init (column_image 4)
           (SetRefImage demo_cv (column_image 3) h)) (\<lambda>h.
   bind (MatchImage demo_cv AcceptRatio_init (column_image 6) h) (\<lambda>h.
   Inr (map (\<lambda>m. mr_matches (Matcher_getResult m)) (matchers h))))) =
     Inr [[\<lparr>queryIdx = 5, trainIdx = 0, imgIdx = 0, distance = 1\<rparr>,
           \<lparr>queryIdx = 4, trainIdx = 0, imgIdx = 0, distance = 2\<rparr>,
           \<lparr>queryIdx = 3, trainIdx = 0, imgIdx = 0, distance = 3\<rparr>]]"
proof -
  let ?h0 = "\<lparr>referDets = [Detector_ctor ''sift'' SIFT_create],
          inputDets = [Detector_ctor ''sift'' SIFT_create],
          matchers = [Matcher_ctor ''bf'' (BFMatcher_create NORM_L1)],
          acceptRatio = Fin (1 / 2)\<rparr>"
  let ?h1 = "SetRefImage demo_cv (column_image 3) ?h0"
  let ?A = "\<lambda>h. h\<lparr>inputDets := map (DetectAndCompute demo_cv (column_image 4)) (inputDets h)\<rparr>"
  let ?B = "\<lambda>h. h\<lparr>inputDets := map (DetectAndCompute demo_cv (column_image 6)) (inputDets h)\<rparr>"
  have a: "MatchImage_hpp demo_cv AcceptRatio_init (column_image 4) ?h1 = Inr (?A ?h1)"
    unfolding AcceptRatio_init_def
    by (rule MatchImage_hpp_demo) (simp_all add: SetRefImage_def)
  have b: "MatchImage_hpp demo_cv AcceptRatio_init (column_image 6) (?A ?h1) = Inr (?B (?A ?h1))"
    unfolding AcceptRatio_init_def
    by (rule MatchImage_hpp_demo) (simp_all add: SetRefImage_def)
  have c: "map (\<lambda>m. mr_matches (Matcher_getResult m)) (matchers (?B (?A ?h1))) = [[]]"
    by (simp add: SetRefImage_def Matcher_getResult_def Matcher_ctor_def)
  have hpp: "bind (MatchHandler_ctor_hpp [''sift''] [''bf'']) (\<lambda>h.
     bind (MatchImage_hpp demo_cv AcceptRatio_init (column_image 4)
           (SetRefImage demo_cv (column_image 3) h)) (\<lambda>h.
     bind (MatchImage_hpp demo_cv AcceptRatio_init (column_image 6) h) (\<lambda>h.
     Inr (map (\<lambda>m. mr_matches (Matcher_getResult m)) (matchers h))))) = Inr [[]]"
    by (simp only: ctor_hpp_sift_bf bind_Inr a b c)
  let ?hA = "?h1\<lparr>inputDets := map (DetectAndCompute demo_cv (column_image 4)) (inputDets ?h1),
            matchers := map (\<lambda>j. (matchers ?h1 ! j)\<lparr>matches := take (4 div 2)
                (sort_key distance (demo_match (matcher (matchers ?h1 ! j)) (column_image 4)
                   (descriptors (referDets ?h1 ! j))))\<rparr>) [0..<length (matchers ?h1)]\<rparr>"
  have a': "MatchImage demo_cv AcceptRatio_init (column_image 4) ?h1 = Inr ?hA"
    unfolding AcceptRatio_init_def
    by (rule MatchImage_demo) (simp_all add: SetRefImage_def)
  have pA: "length (referDets ?hA) = length (matchers ?hA)"
      "length (inputDets ?hA) = length (matchers ?hA)" "length (matchers ?hA) = 1"
    by (simp_all add: SetRefImage_def)
  have b': "MatchImage demo_cv AcceptRatio_init (column_image 6) ?hA = Inr
       (?hA\<lparr>inputDets := map (DetectAndCompute demo_cv (column_image 6)) (inputDets ?hA),
            matchers := map (\<lambda>j. (matchers ?hA ! j)\<lparr>matches := take (6 div 2)
                (sort_key distance (demo_match (matcher (matchers ?hA ! j)) (column_image 6)
                   (descriptors (referDets ?hA ! j))))\<rparr>) [0..<length (matchers ?hA)]\<rparr>)"
    unfolding AcceptRatio_init_def by (rule MatchImage_demo [OF pA(1,2)]) simp
  have new: "bind (MatchHandler_ctor [''sift''] [''bf'']) (\<lambda>h.
     bind (MatchImage demo_cv AcceptRatio_init (column_image 4)
           (SetRefImage demo_cv (column_image 3) h)) (\<lambda>h.
     bind (MatchImage demo_cv AcceptRatio_init (column_image 6) h) (\<lambda>h.
     Inr (map (\<lambda>m. mr_matches (Matcher_getResult m)) (matchers h))))) =
     Inr [[\<lparr>queryIdx = 5, trainIdx = 0, imgIdx = 0, distance = 1\<rparr>,
           \<lparr>queryIdx = 4, trainIdx = 0, imgIdx = 0, distance = 2\<rparr>,
           \<lparr>queryIdx = 3, trainIdx = 0, imgIdx = 0, distance = 3\<rparr>]]"
    unfolding ctor_sift_bf bind_Inr a' b'
    by (simp add: SetRefImage_def Matcher_getResult_def sorted_demo_match_6)
  from hpp new show ?thesis by (rule conjI)
qed


section \<open>The scaling guard and failures of the drawing call\<close>

lemma finish_frame_eq: "finish_frame cv matchimg nm = putText cv matchimg nm"
  by (simp add: finish_frame_def Mat_empty_def Mat_default_def)

text \<open>
  C8. The frame that \<open>DrawSingleResult\<close> returns is the output of \<open>cv::drawMatches\<close>
  with the name drawn on it, in both files and for every input: the guard of the scaling
  branch compares \<open>maxheight = 0\<close> with \<open>100\<close>, so the branch is never taken, and the
  result does not depend on what \<open>cv::resize\<close> would do.
\<close>

theorem DrawSingleResult_never_resizes:
  "finish_frame cv matchimg nm = putText cv matchimg nm \<and>
   fst (DrawSingleResult cv refDet inpDet mtch) =
     putText cv
       (fst (drawMatches cv (r_image inpDet) (r_keypts inpDet) (r_image refDet) (r_keypts refDet)
          (mr_matches mtch)))
       (r_name inpDet) \<and>
   DrawSingleResult_hpp cv refDet inpDet mtch =
     (case snd (drawMatches cv (r_image inpDet) (r_keypts inpDet) (r_image refDet)
                  (r_keypts refDet) (mr_matches mtch)) of
        Some what \<Rightarrow> Inl (StdException what)
      | None \<Rightarrow>
          Inr (putText cv
            (fst (drawMatches cv (r_image inpDet) (r_keypts inpDet) (r_image refDet)
               (r_keypts refDet) (mr_matches mtch)))
            (r_name inpDet))) \<and>
   DrawSingleResult (cv\<lparr>resize := rz\<rparr>) refDet inpDet mtch = DrawSingleResult cv refDet inpDet mtch \<and>
   DrawSingleResult_hpp (cv\<lparr>resize := rz\<rparr>) refDet inpDet mtch =
     DrawSingleResult_hpp cv refDet inpDet mtch"
  by (simp add: finish_frame_eq DrawSingleResult_def DrawSingleResult_hpp_def
      split: prod.splits option.splits)

lemma for_loop_fold:
  "(\<And>j s. i \<le> j \<Longrightarrow> j < i + n \<Longrightarrow> body j s = Inr (upd j s)) \<Longrightarrow>
   for_loop i n body s = Inr (fold upd [i..<i + n] s)"
proof (induction n arbitrary: i s)
  case 0
  then show ?case by simp
next
  case (Suc n)
  have st: "body i s = Inr (upd i s)" by (rule Suc.prems) simp_all
  have "for_loop (Suc i) n body (upd i s) = Inr (fold upd [Suc i..<Suc i + n] (upd i s))"
    by (rule Suc.IH) (simp_all add: Suc.prems)
  moreover have "[i..<i + Suc n] = i # [Suc i..<Suc i + n]"
    using upt_conv_Cons [of i "i + Suc n"] by simp
  ultimately show ?case by (simp only: for_loop.simps st bind_Inr fold_simps)
qed

lemma for_loop_fails:
  assumes "\<And>j s. j < k \<Longrightarrow> \<exists>s'. body j s = Inr s'"
    and "\<And>s. body k s = Inl e" and "i \<le> k" and "k < i + n"
  shows "for_loop i n body s = Inl e"
  using assms(3,4)
proof (induction n arbitrary: i s)
  case 0
  then show ?case by simp
next
  case (Suc n)
  show ?case
  proof (cases "i = k")
    case True
    then show ?thesis by (simp add: assms(2))
  next
    case False
    with Suc.prems have ik: "i < k" by simp
    from assms(1) [OF ik] obtain s' where s': "body i s = Inr s'" by blast
    have "for_loop (Suc i) n body s' = Inl e"
      by (rule Suc.IH) (use ik Suc.prems in simp_all)
    then show ?thesis by (simp add: s')
  qed
qed

lemma fold_collect:
  "fold (\<lambda>j (imgs, cerr). (imgs @ [F j], cerr @ L j)) xs (a, b) =
     (a @ map F xs, b @ concat (map L xs))"
  by (induction xs arbitrary: a b) simp_all

lemma draw_args_paired:
  assumes "length (referDets h) = length (matchers h)"
    "length (inputDets h) = length (matchers h)" "j < length (matchers h)"
  shows "draw_args h j = Inr (Detector_getResult (referDets h ! j),
     Detector_getResult (inputDets h ! j), Matcher_getResult (matchers h ! j))"
  using assms by (simp add: draw_args_def vec_at_def)

lemma DrawMatchResult_stacks_every_pipeline:
  assumes paired: "length (referDets h) = length (matchers h)"
    "length (inputDets h) = length (matchers h)"
  shows "DrawMatchResult cv maxHeight h =
     Inr (let frames = map (\<lambda>j. fst (DrawSingleResult cv (Detector_getResult (referDets h ! j))
                 (Detector_getResult (inputDets h ! j)) (Matcher_getResult (matchers h ! j))))
               [0..<length (matchers h)];
              stackedResult = vconcat cv frames
          in if maxHeight < rows stackedResult
             then resize cv stackedResult (cols stackedResult div 2, rows stackedResult div 2)
             else stackedResult,
          concat (map (\<lambda>j. snd (DrawSingleResult cv (Detector_getResult (referDets h ! j))
                 (Detector_getResult (inputDets h ! j)) (Matcher_getResult (matchers h ! j))))
               [0..<length (matchers h)]))"
proof -
  let ?D = "\<lambda>j. DrawSingleResult cv (Detector_getResult (referDets h ! j))
                 (Detector_getResult (inputDets h ! j)) (Matcher_getResult (matchers h ! j))"
  let ?body = "\<lambda>i (resultImgs, cerr).
                bind (draw_args h i) (\<lambda>(rd, d, m).
                  (let (result, lg) = DrawSingleResult cv rd d m
                   in Inr (resultImgs @ [result], cerr @ lg)))"
  let ?step = "\<lambda>j (imgs, cerr). (imgs @ [fst (?D j)], cerr @ snd (?D j))"
  have "for_loop 0 (length (matchers h)) ?body ([], []) =
      Inr (fold ?step [0..<0 + length (matchers h)] ([], []))"
  proof (rule for_loop_fold)
    fix j and s :: "Mat list \<times> string list"
    assume "0 \<le> j" and "j < 0 + length (matchers h)"
    then have j: "j < length (matchers h)" by simp
    show "?body j s = Inr (?step j s)"
      by (cases s) (simp add: draw_args_paired [OF paired j] split: prod.splits)
  qed
  then show ?thesis
    by (simp add: DrawMatchResult_def fold_collect Let_def)
qed

lemma DrawSingleResult_catches:
  "DrawSingleResult cv refDet inpDet mtch =
     (putText cv
        (fst (drawMatches cv (r_image inpDet) (r_keypts inpDet) (r_image refDet) (r_keypts refDet)
           (mr_matches mtch)))
        (r_name inpDet),
      case snd (drawMatches cv (r_image inpDet) (r_keypts inpDet) (r_image refDet)
                  (r_keypts refDet) (mr_matches mtch)) of
        None \<Rightarrow> [] | Some what \<Rightarrow> [what])"
  by (simp add: DrawSingleResult_def finish_frame_eq split: prod.splits)

lemma DrawMatchResult_hpp_propagates:
  assumes paired: "length (referDets h) = length (matchers h)"
    "length (inputDets h) = length (matchers h)"
    and k: "k < length (matchers h)"
    and thrown: "snd (drawMatches cv (image_d (inputDets h ! k)) (keypts (inputDets h ! k))
        (image_d (referDets h ! k)) (keypts (referDets h ! k)) (matches (matchers h ! k))) = Some w"
    and before: "\<And>j. j < k \<Longrightarrow>
      snd (drawMatches cv (image_d (inputDets h ! j)) (keypts (inputDets h ! j))
        (image_d (referDets h ! j)) (keypts (referDets h ! j)) (matches (matchers h ! j))) = None"
  shows "DrawMatchResult_hpp cv maxHeight h = Inl (StdException w)"
proof -
  let ?body = "\<lambda>i resultImgs.
                bind (draw_args h i) (\<lambda>(rd, d, m).
                bind (DrawSingleResult_hpp cv rd d m) (\<lambda>result.
                Inr (resultImgs @ [result])))"
  have "for_loop 0 (length (matchers h)) ?body [] = Inl (StdException w)"
  proof (rule for_loop_fails [where k = k])
    fix j and s :: "Mat list"
    assume jk: "j < k"
    then have j: "j < length (matchers h)" using k by simp
    show "\<exists>s'. ?body j s = Inr s'"
      using before [OF jk]
      by (auto simp: draw_args_paired [OF paired j] DrawSingleResult_hpp_def
          Detector_getResult_def Matcher_getResult_def split: prod.splits)
  next
    fix s :: "Mat list"
    show "?body k s = Inl (StdException w)"
      using thrown
      by (auto simp: draw_args_paired [OF paired k] DrawSingleResult_hpp_def
          Detector_getResult_def Matcher_getResult_def split: prod.splits)
  qed (use k in simp_all)
  then show ?thesis by (simp add: DrawMatchResult_hpp_def)
qed

lemma hpp_drawing_ends_with_exception:
  "bind (MatchHandler_ctor_hpp [''sift'', ''orb''] [''bf'', ''bf'']) (\<lambda>h.
   bind (MatchImage_hpp demo_cv AcceptRatio_init (column_image 4)
           (SetRefImage demo_cv (column_image 3) h)) (\<lambda>h.
   DrawMatchResult_hpp demo_cv 1000 h)) = Inl (StdException ''no keypoints'')"
proof -
  let ?h0 = "\<lparr>referDets = [Detector_ctor ''sift'' SIFT_create, Detector_ctor ''orb'' ORB_create],
          inputDets = [Detector_ctor ''sift'' SIFT_create, Detector_ctor ''orb'' ORB_create],
          matchers = [Matcher_ctor ''bf'' (BFMatcher_create NORM_L1),
                      Matcher_ctor ''bf'' (BFMatcher_create NORM_L1)],
          acceptRatio = Fin (1 / 2)\<rparr>"
  let ?h1 = "SetRefImage demo_cv (column_image 3) ?h0"
  let ?h2 = "?h1\<lparr>inputDets := map (DetectAndCompute demo_cv (column_image 4)) (inputDets ?h1)\<rparr>"
  have m: "MatchImage_hpp demo_cv AcceptRatio_init (column_image 4) ?h1 = Inr ?h2"
    unfolding AcceptRatio_init_def
    by (rule MatchImage_hpp_demo) (simp_all add: SetRefImage_def)
  have d: "DrawMatchResult_hpp demo_cv 1000 ?h2 = Inl (StdException ''no keypoints'')"
    by (simp add: DrawMatchResult_hpp_def SetRefImage_def numeral_2_eq_2 draw_args_def vec_at_def
        DrawSingleResult_hpp_def Detector_getResult_def Matcher_getResult_def
        DetectAndCompute_def demo_detect_def demo_drawMatches_def Detector_ctor_def
        column_image_def)
  show ?thesis by (simp only: ctor_hpp_sift_orb bind_Inr m d)
qed

lemma ctor_sift_orb:
  "MatchHandler_ctor [''sift'', ''orb''] [''bf'', ''bf''] =
     Inr \<lparr>referDets = [Detector_ctor ''sift'' SIFT_create, Detector_ctor ''orb'' ORB_create],
          inputDets = [Detector_ctor ''sift'' SIFT_create, Detector_ctor ''orb'' ORB_create],
          matchers = [Matcher_ctor ''bf'' (BFMatcher_create NORM_L1),
                      Matcher_ctor ''bf'' (BFMatcher_create NORM_HAMMING)],
          acceptRatio = Fin (1 / 2)\<rparr>"
  by (subst MatchHandler_ctor_ok)
     (simp_all add: Detector_Factory_def Matcher_Factory_def upt_conv_Cons)

lemma DrawMatchResult_catches_demo:
  "bind (MatchHandler_ctor [''sift'', ''orb''] [''bf'', ''bf'']) (\<lambda>h.
   bind (MatchImage demo_cv AcceptRatio_init (column_image 4)
           (SetRefImage demo_cv (column_image 3) h)) (\<lambda>h.
   DrawMatchResult demo_cv 1000 h)) =
     Inr (vconcat demo_cv
            [putText demo_cv \<lparr>rows = 4, cols = 2, data = replicate 7 0\<rparr> ''sift'',
             putText demo_cv Mat_default ''orb''],
          [''no keypoints''])"
proof -
  let ?h0 = "\<lparr>referDets = [Detector_ctor ''sift'' SIFT_create, Detector_ctor ''orb'' ORB_create],
          inputDets = [Detector_ctor ''sift'' SIFT_create, Detector_ctor ''orb'' ORB_create],
          matchers = [Matcher_ctor ''bf'' (BFMatcher_create NORM_L1),
                      Matcher_ctor ''bf'' (BFMatcher_create NORM_HAMMING)],
          acceptRatio = Fin (1 / 2)\<rparr>"
  let ?h1 = "SetRefImage demo_cv (column_image 3) ?h0"
  let ?hA = "?h1\<lparr>inputDets := map (DetectAndCompute demo_cv (column_image 4)) (inputDets ?h1),
            matchers := map (\<lambda>j. (matchers ?h1 ! j)\<lparr>matches := take (4 div 2)
                (sort_key distance (demo_match (matcher (matchers ?h1 ! j)) (column_image 4)
                   (descriptors (referDets ?h1 ! j))))\<rparr>) [0..<length (matchers ?h1)]\<rparr>"
  have a: "MatchImage demo_cv AcceptRatio_init (column_image 4) ?h1 = Inr ?hA"
    unfolding AcceptRatio_init_def
    by (rule MatchImage_demo) (simp_all add: SetRefImage_def)
  have pA: "length (referDets ?hA) = length (matchers ?hA)"
      "length (inputDets ?hA) = length (matchers ?hA)"
    by (simp_all add: SetRefImage_def)
  have d: "DrawMatchResult demo_cv 1000 ?hA =
     Inr (vconcat demo_cv
            [putText demo_cv \<lparr>rows = 4, cols = 2, data = replicate 7 0\<rparr> ''sift'',
             putText demo_cv Mat_default ''orb''],
          [''no keypoints''])"
    unfolding DrawMatchResult_stacks_every_pipeline [OF pA] DrawSingleResult_catches
    by (simp add: SetRefImage_def upt_conv_Cons Detector_getResult_def Matcher_getResult_def
        DetectAndCompute_def demo_detect_def demo_drawMatches_def demo_vconcat_def
        Detector_ctor_def column_image_def Mat_default_def Let_def numeral_eq_Suc)
  show ?thesis by (simp only: ctor_sift_orb bind_Inr a d)
qed

text \<open>
  C3. The claim fails on \<open>feature.hpp\<close>. With two pipelines (\<open>sift\<close> and \<open>orb\<close>, both
  \<open>bf\<close>) and a library whose drawing call throws for the second pipeline only,
  \<open>DrawMatchResult\<close> of \<open>feature.hpp\<close> ends with that exception and returns no
  composite: its \<open>DrawSingleResult\<close> calls \<open>cv::drawMatches\<close> outside any \<open>try\<close>. The
  second source file, run on the same calls, writes the message to \<open>std::cerr\<close> and stacks
  two frames, the second one being the untouched output image with the name drawn on it.
\<close>

theorem DrawMatchResult_hpp_aborts:
  "bind (MatchHandler_ctor_hpp [''sift'', ''orb''] [''bf'', ''bf'']) (\<lambda>h.
   bind (MatchImage_hpp demo_cv AcceptRatio_init (column_image 4)
           (SetRefImage demo_cv (column_image 3) h)) (\<lambda>h.
   DrawMatchResult_hpp demo_cv 1000 h)) = Inl (StdException ''no keypoints'') \<and>
   bind (MatchHandler_ctor [''sift'', ''orb''] [''bf'', ''bf'']) (\<lambda>h.
   bind (MatchImage demo_cv AcceptRatio_init (column_image 4)
           (SetRefImage demo_cv (column_image 3) h)) (\<lambda>h.
   DrawMatchResult demo_cv 1000 h)) =
     Inr (vconcat demo_cv
            [putText demo_cv \<lparr>rows = 4, cols = 2, data = replicate 7 0\<rparr> ''sift'',
             putText demo_cv Mat_default ''orb''],
          [''no keypoints''])"
  using hpp_drawing_ends_with_exception DrawMatchResult_catches_demo by (rule conjI)

end
